theory Spec2Isabelle
  imports Main "HOL-Library.AList" "HOL-Library.Sublist"
begin

section \<open>JavaScript strings and values\<close>

text \<open>
  Strings are character lists. The string operations of the data-access layer are
  \<open>String.prototype.split\<close>, \<open>includes\<close>, \<open>trim\<close> and
  \<open>toLowerCase\<close>; they are written out here on the ASCII range (a character is
  one byte; letters outside \<open>A-Z\<close> are left alone by \<open>toLowerCase\<close>).
\<close>

fun split_where :: "(char \<Rightarrow> bool) \<Rightarrow> string \<Rightarrow> string list" where
  "split_where sep [] = [[]]"
| "split_where sep (c # cs) =
     (if sep c then [] # split_where sep cs
      else (case split_where sep cs of
              [] \<Rightarrow> [[c]]
            | p # ps \<Rightarrow> (c # p) # ps))"

text \<open>\<open>s.split('/')\<close>: the pieces between the slashes, at least one piece.\<close>

definition split_slash :: "string \<Rightarrow> string list" where
  "split_slash s = split_where (\<lambda>c. c = CHR ''/'') s"

text \<open>\<open>s.includes(t)\<close>: \<open>t\<close> occurs in \<open>s\<close> as a contiguous substring.\<close>

fun includesJS :: "string \<Rightarrow> string \<Rightarrow> bool" where
  "includesJS [] t = (t = [])"
| "includesJS (c # cs) t = (prefix t (c # cs) \<or> includesJS cs t)"

definition is_space :: "char \<Rightarrow> bool" where
  "is_space c = (c = CHR '' '' \<or> (9 \<le> (of_char c :: nat) \<and> (of_char c :: nat) \<le> 13))"

definition trim :: "string \<Rightarrow> string" where
  "trim s = rev (dropWhile is_space (rev (dropWhile is_space s)))"

definition lower_char :: "char \<Rightarrow> char" where
  "lower_char c =
     (if 65 \<le> (of_char c :: nat) \<and> (of_char c :: nat) \<le> 90
      then char_of ((of_char c :: nat) + 32) else c)"

definition toLowerCase :: "string \<Rightarrow> string" where
  "toLowerCase s = map lower_char s"

text \<open>The regular expression class \<open>\w\<close>: letters, digits and the underscore.\<close>

definition is_word_char :: "char \<Rightarrow> bool" where
  "is_word_char c =
     (let n = (of_char c :: nat) in
        (48 \<le> n \<and> n \<le> 57) \<or> (65 \<le> n \<and> n \<le> 90) \<or> (97 \<le> n \<and> n \<le> 122) \<or> n = 95)"

text \<open>
  A JSON value as \<open>JSON.parse\<close> delivers it. Numbers are the integers (identifiers are
  integers; fractions and exponents are not modelled).
\<close>

datatype jsval =
    JNull
  | JBool bool
  | JNum int
  | JStr string
  | JArr "jsval list"
  | JObj "(string \<times> jsval) list"

text \<open>Truthiness, as \<open>if (v)\<close>, \<open>v ? a : b\<close> and \<open>v || d\<close> test it.\<close>

fun truthy :: "jsval \<Rightarrow> bool" where
  "truthy JNull = False"
| "truthy (JBool b) = b"
| "truthy (JNum n) = (n \<noteq> 0)"
| "truthy (JStr s) = (s \<noteq> [])"
| "truthy (JArr xs) = True"
| "truthy (JObj fs) = True"

text \<open>\<open>String(n)\<close> for an integer \<open>n\<close>: its decimal digits, with a sign if negative.\<close>

definition digit_char :: "nat \<Rightarrow> char" where
  "digit_char d = char_of (48 + d)"

fun decimal :: "nat \<Rightarrow> string" where
  "decimal n = (if n < 10 then [digit_char n] else decimal (n div 10) @ [digit_char (n mod 10)])"

declare decimal.simps [simp del]

definition number_toString :: "int \<Rightarrow> string" where
  "number_toString i = (if i < 0 then CHR ''-'' # decimal (nat (- i)) else decimal (nat i))"

fun join_comma :: "string list \<Rightarrow> string" where
  "join_comma [] = []"
| "join_comma [s] = s"
| "join_comma (s # t # ts) = s @ CHR '','' # join_comma (t # ts)"

text \<open>
  \<open>String(v)\<close>; \<open>None\<close> is the \<open>TypeError\<close> it throws. An array is its elements
  joined by commas, a \<open>null\<close> element contributing the empty string. A plain object is
  \<open>[object Object]\<close>, unless it has a key \<open>toString\<close> of its own: that value, coming
  from JSON, is not callable, the inherited \<open>valueOf\<close> returns the object itself, and
  the conversion to a primitive throws.
\<close>

fun js_String :: "jsval \<Rightarrow> string option" where
  "js_String JNull = Some ''null''"
| "js_String (JBool b) = Some (if b then ''true'' else ''false'')"
| "js_String (JNum n) = Some (number_toString n)"
| "js_String (JStr s) = Some s"
| "js_String (JArr xs) =
     map_option join_comma (those (map (\<lambda>x. if x = JNull then Some [] else js_String x) xs))"
| "js_String (JObj fs) = (if ''toString'' \<in> fst ` set fs then None else Some ''[object Object]'')"

section \<open>Request Gateway (ApiClient)\<close>

text \<open>
  The two \<open>CacheEntry\<close> interfaces: the repositories keep data and a timestamp, the
  gateway adds the expiry instant.
\<close>

record 'a CacheEntry =
  data :: 'a
  timestamp :: int

record 'a ApiCacheEntry = "'a CacheEntry" +
  expiresAt :: int

text \<open>
  \<open>requestCache\<close> is a \<open>Map\<close> from cache key to entry: an association list in
  insertion order, written with \<open>AList.update\<close> (\<open>Map.set\<close>) and
  \<open>AList.delete\<close> (\<open>Map.delete\<close>) and read with \<open>map_of\<close> (\<open>Map.get\<close>).
\<close>

type_synonym request_cache = "(string \<times> jsval ApiCacheEntry) list"

definition defaultCacheExpiration :: int where
  "defaultCacheExpiration = 5 * 60 * 1000"

definition baseURL :: string where
  "baseURL = ''https://kamus-negeri-backend.onrender.com''"

text \<open>
  What the axios call of a request settles to: rejected with an error (a network error
  carries the code \<open>ERR_NETWORK\<close>), or resolved with the response body. A request
  cancelled by the interceptor resolves with the body \<open>null\<close>.
\<close>

datatype axios_error = ErrNetwork | ErrOther string

datatype net_outcome = NetFail axios_error | NetOk jsval

text \<open>What \<open>get\<close> throws: the rewritten network error message, or the error itself.\<close>

datatype thrown = NetworkMessage string | Rethrown axios_error

record cacheOptions =
  skipCache :: bool
  expirationMs :: "int option"

definition cacheKey_of :: "string \<Rightarrow> string option \<Rightarrow> string" where
  "cacheKey_of url params = url @ (case params of None \<Rightarrow> [] | Some js \<Rightarrow> js)"

text \<open>
  \<open>getValidCacheData\<close> returns the data of an unexpired entry, and otherwise
  \<open>null\<close> after deleting the entry if there is one.
\<close>

definition getValidCacheData :: "int \<Rightarrow> request_cache \<Rightarrow> string \<Rightarrow> jsval \<times> request_cache" where
  "getValidCacheData now c key =
     (case map_of c key of
        Some e \<Rightarrow> if now < expiresAt e then (data e, c) else (JNull, AList.delete key c)
      | None \<Rightarrow> (JNull, c))"

definition setCacheData :: "int \<Rightarrow> request_cache \<Rightarrow> string \<Rightarrow> jsval \<Rightarrow> int option \<Rightarrow> request_cache" where
  "setCacheData now c key d expMs =
     AList.update key
       \<lparr> data = d, timestamp = now,
         expiresAt = now + (case expMs of
                              None \<Rightarrow> defaultCacheExpiration
                            | Some ms \<Rightarrow> if ms \<noteq> 0 then ms else defaultCacheExpiration) \<rparr> c"

definition get_error :: "string \<Rightarrow> axios_error \<Rightarrow> thrown" where
  "get_error url e =
     (case e of
        ErrNetwork \<Rightarrow>
          NetworkMessage (''Network error when connecting to '' @ baseURL @ url @ ''. '' @
            ''Please check your internet connection and API URL configuration.'')
      | ErrOther m \<Rightarrow> Rethrown e)"

text \<open>
  \<open>get\<close> after its \<open>await\<close>: \<open>c\<close> is the cache at the moment the axios call
  settles and \<open>now\<close> the time then. Success stores the body unless \<open>skipCache\<close>;
  failure falls back to whatever entry the cache holds for the key.
\<close>

definition get_settle ::
  "int \<Rightarrow> request_cache \<Rightarrow> string \<Rightarrow> string \<Rightarrow> cacheOptions \<Rightarrow> net_outcome \<Rightarrow> (thrown + jsval) \<times> request_cache" where
  "get_settle now c url key opts outcome =
     (case outcome of
        NetOk body \<Rightarrow>
          (Inr body, if \<not> skipCache opts then setCacheData now c key body (expirationMs opts) else c)
      | NetFail e \<Rightarrow>
          (case map_of c key of
             Some entry \<Rightarrow> (Inr (data entry), c)
           | None \<Rightarrow> (Inl (get_error url e), c)))"

text \<open>Whether \<open>get\<close> answers from the cache without a network call.\<close>

definition get_hit :: "int \<Rightarrow> request_cache \<Rightarrow> string \<Rightarrow> cacheOptions \<Rightarrow> bool" where
  "get_hit now c key opts = (\<not> skipCache opts \<and> truthy (fst (getValidCacheData now c key)))"

text \<open>
  \<open>get\<close>, run without interleaving: \<open>now0\<close> is the time of the validity check,
  \<open>now1\<close> the time the axios call settles, \<open>params\<close> the serialised query parameters
  (\<open>JSON.stringify(config.params)\<close>) when there are any.
\<close>

definition get ::
  "int \<Rightarrow> int \<Rightarrow> net_outcome \<Rightarrow> request_cache \<Rightarrow> string \<Rightarrow> string option \<Rightarrow> cacheOptions
     \<Rightarrow> (thrown + jsval) \<times> request_cache" where
  "get now0 now1 outcome c url params opts =
     (let key = cacheKey_of url params in
        if \<not> skipCache opts then
          (case getValidCacheData now0 c key of
             (cachedData, c') \<Rightarrow>
               if truthy cachedData then (Inr cachedData, c')
               else get_settle now1 c' url key opts outcome)
        else get_settle now1 c url key opts outcome)"

text \<open>
  \<open>invalidateRelatedCache\<close>: \<open>urlParts[0]\<close> of \<open>url.split('/')\<close>, then the loop over
  the keys that deletes each key containing it.
\<close>

definition resourcePath :: "string \<Rightarrow> string" where
  "resourcePath url = (case split_slash url of [] \<Rightarrow> ''undefined'' | p # ps \<Rightarrow> p)"

definition invalidateRelatedCache :: "request_cache \<Rightarrow> string \<Rightarrow> request_cache" where
  "invalidateRelatedCache c url =
     fold (\<lambda>cacheKey acc. if includesJS cacheKey (resourcePath url) then AList.delete cacheKey acc else acc)
       (map fst c) c"

text \<open>
  \<open>post\<close>, \<open>put\<close> and \<open>delete\<close> share one body: the axios call, the invalidation
  on success, the error rethrown on failure.
\<close>

definition mutate :: "net_outcome \<Rightarrow> request_cache \<Rightarrow> string \<Rightarrow> (axios_error + jsval) \<times> request_cache" where
  "mutate outcome c url =
     (case outcome of
        NetOk body \<Rightarrow> (Inr body, invalidateRelatedCache c url)
      | NetFail e \<Rightarrow> (Inl e, c))"

definition post :: "net_outcome \<Rightarrow> request_cache \<Rightarrow> string \<Rightarrow> (axios_error + jsval) \<times> request_cache" where
  "post = mutate"

definition put :: "net_outcome \<Rightarrow> request_cache \<Rightarrow> string \<Rightarrow> (axios_error + jsval) \<times> request_cache" where
  "put = mutate"

definition delete :: "net_outcome \<Rightarrow> request_cache \<Rightarrow> string \<Rightarrow> (axios_error + jsval) \<times> request_cache" where
  "delete = mutate"

definition clearCache :: "request_cache \<Rightarrow> request_cache" where
  "clearCache c = []"

section \<open>Entities\<close>

text \<open>
  The domain entities \<open>Kamus\<close> and \<open>Negeri\<close>. Their \<open>id\<close> fields are named
  \<open>idK\<close> and \<open>idN\<close>, the \<open>notes\<close> field \<open>notesK\<close>; an optional field is
  an \<open>option\<close>.
\<close>

record Kamus =
  idK :: string
  word :: string
  meaning :: string
  example :: "string option"
  negeriId :: string
  negeriName :: "string option"
  notesK :: "string option"
  tags :: "string list option"

record Negeri =
  idN :: string
  name :: string
  description :: "string option"
  capital :: "string option"
  flag :: "string option"
  emblem :: "string option"

section \<open>Entry Repository (KamusRepositoryImpl)\<close>

text \<open>
  A raw record of the entries endpoint (\<open>KamusApiResponse\<close>). Every field may be
  missing (\<open>None\<close> is \<open>undefined\<close>). The two identifiers, which the mapping tests
  for truthiness and converts with \<open>String()\<close>, are whatever JSON value arrived; the
  text fields, which the mapping hands on as they are, have their declared type; the
  nested \<open>negeri\<close> object is the field \<open>negeri_obj\<close>. The
  fields \<open>createdAt\<close> and \<open>updatedAt\<close> are never read and are left out.
\<close>

record NegeriRef =
  idRef :: "jsval option"
  nameRef :: "string option"

record KamusApiResponse =
  idR :: "jsval option"
  dialek :: "string option"
  maksud :: "string option"
  contoh_ayat :: "string option"
  negeri_id :: "jsval option"
  negeri_obj :: "NegeriRef option"

text \<open>
  An item of the response array is a record or \<open>null\<close> (\<open>None\<close>); reading a
  property of \<open>null\<close> throws a \<open>TypeError\<close>.
\<close>

type_synonym raw_item = "KamusApiResponse option"

text \<open>
  The body that \<open>apiClient.get\<close> resolved with, by the cases the repository tells
  apart: falsy (\<open>null\<close>, also the body of a cancelled request), an array, a single
  object, or any other truthy value.
\<close>

datatype kamus_payload =
    PayloadFalsy
  | PayloadArray "raw_item list"
  | PayloadObject KamusApiResponse
  | PayloadOther

datatype repo_error = GatewayError thrown | ErrorMessage string | TypeError

text \<open>\<open>v ? String(v) : d\<close> and \<open>s || d\<close>.\<close>

definition string_or :: "jsval option \<Rightarrow> string \<Rightarrow> string option" where
  "string_or v d = (case v of None \<Rightarrow> Some d | Some x \<Rightarrow> if truthy x then js_String x else Some d)"

definition text_or :: "string option \<Rightarrow> string \<Rightarrow> string" where
  "text_or s d = (case s of None \<Rightarrow> d | Some x \<Rightarrow> if x \<noteq> [] then x else d)"

text \<open>
  \<open>mapApiResponseToKamus\<close> throws a \<open>TypeError\<close> on a \<open>null\<close> item, whose
  properties cannot be read, and when \<open>String()\<close> throws on the \<open>id\<close> or the
  \<open>negeri_id\<close>.
\<close>

definition mapApiResponseToKamus :: "int \<Rightarrow> raw_item \<Rightarrow> repo_error + Kamus" where
  "mapApiResponseToKamus now apiResponse =
     (case apiResponse of
        None \<Rightarrow> Inl TypeError
      | Some r \<Rightarrow>
          (case string_or (idR r) (''unknown-'' @ number_toString now) of
             None \<Rightarrow> Inl TypeError
           | Some ident \<Rightarrow>
               (case string_or (negeri_id r) ''0'' of
                  None \<Rightarrow> Inl TypeError
                | Some nid \<Rightarrow>
                    Inr \<lparr> idK = ident,
                          word = text_or (dialek r) ''Unknown Word'',
                          meaning = text_or (maksud r) ''No meaning provided'',
                          example = contoh_ayat r,
                          negeriId = nid,
                          negeriName =
                            Some (text_or (case negeri_obj r of None \<Rightarrow> None | Some g \<Rightarrow> nameRef g)
                                    ''Unknown Region''),
                          notesK = None,
                          tags = None \<rparr>)))"

text \<open>
  The placeholder that stands in for an item whose mapping threw; \<open>sfx\<close> is
  \<open>Math.random().toString(36).substring(2, 9)\<close>.
\<close>

definition placeholder :: "string \<Rightarrow> string \<Rightarrow> Kamus" where
  "placeholder sfx nid =
     \<lparr> idK = ''error-'' @ sfx,
       word = ''Error loading item'',
       meaning = ''There was an error processing this item'',
       example = None,
       negeriId = nid,
       negeriName = Some ''Unknown'',
       notesK = None,
       tags = None \<rparr>"

text \<open>
  \<open>processedResponse.map(item => { try ... catch ... })\<close>; \<open>rnd i\<close> is the random
  suffix drawn for the item at position \<open>i\<close>, \<open>now\<close> the clock during the mapping.
\<close>

definition map_items :: "int \<Rightarrow> (nat \<Rightarrow> string) \<Rightarrow> string \<Rightarrow> raw_item list \<Rightarrow> Kamus list" where
  "map_items now rnd nid items =
     map (\<lambda>(i, item). case mapApiResponseToKamus now item of
                         Inr k \<Rightarrow> k
                       | Inl err \<Rightarrow> placeholder (rnd i) nid)
       (enumerate 0 items)"

text \<open>
  The fetch and the shape checks that follow it; each \<open>Inl\<close> is a \<open>throw\<close> inside
  the \<open>try\<close> block.
\<close>

definition processResponse :: "thrown + kamus_payload \<Rightarrow> repo_error + raw_item list" where
  "processResponse outcome =
     (case outcome of
        Inl t \<Rightarrow> Inl (GatewayError t)
      | Inr PayloadFalsy \<Rightarrow> Inl (ErrorMessage ''API response is null or undefined'')
      | Inr (PayloadArray items) \<Rightarrow> Inr items
      | Inr (PayloadObject obj) \<Rightarrow> Inr [Some obj]
      | Inr PayloadOther \<Rightarrow> Inl (ErrorMessage ''Invalid API response format: cannot convert to array''))"

text \<open>A \<open>Set\<close> of strings in insertion order, and the search index, a \<open>Map\<close> to such sets.\<close>

definition set_add :: "string \<Rightarrow> string list \<Rightarrow> string list" where
  "set_add x s = (if x \<in> set s then s else s @ [x])"

definition new_Set :: "string list \<Rightarrow> string list" where
  "new_Set xs = fold set_add xs []"

type_synonym search_index = "(string \<times> string list) list"

record KamusRepo =
  kamusCache :: "Kamus list CacheEntry option"
  kamusByNegeriCache :: "(string \<times> Kamus list CacheEntry) list"
  searchIndex :: search_index

definition cacheExpirationTimeK :: int where
  "cacheExpirationTimeK = 10 * 60 * 1000"

definition tokenizeText :: "string \<Rightarrow> string list" where
  "tokenizeText text =
     (if text = [] then []
      else filter (\<lambda>token. token \<noteq> [])
             (map trim
                (filter (\<lambda>token. length token > 1)
                   (split_where (\<lambda>c. \<not> is_word_char c) (toLowerCase text)))))"

definition index_add :: "string \<Rightarrow> string \<Rightarrow> search_index \<Rightarrow> search_index" where
  "index_add kamus_id token idx =
     (let idx' = (if map_of idx token = None then AList.update token [] idx else idx)
      in case map_of idx' token of
           None \<Rightarrow> idx'
         | Some ids \<Rightarrow> AList.update token (set_add kamus_id ids) idx')"

definition index_kamus :: "Kamus \<Rightarrow> search_index \<Rightarrow> search_index" where
  "index_kamus kamus idx =
     (let wordTokens = tokenizeText (word kamus);
          meaningTokens = tokenizeText (meaning kamus);
          allTokens = new_Set (wordTokens @ meaningTokens)
      in fold (index_add (idK kamus)) allTokens idx)"

definition buildSearchIndex :: "Kamus list \<Rightarrow> search_index" where
  "buildSearchIndex kamusList = fold index_kamus kamusList []"

definition isCacheValidK :: "int \<Rightarrow> 'a CacheEntry option \<Rightarrow> bool" where
  "isCacheValidK now cache =
     (case cache of None \<Rightarrow> False | Some ce \<Rightarrow> now - timestamp ce < cacheExpirationTimeK)"

text \<open>
  \<open>getAllKamus\<close>: \<open>now0\<close> is the clock at the validity check, \<open>now1\<close> the clock
  once the fetch has settled, \<open>outcome\<close> what \<open>apiClient.get\<close> settles to.
\<close>

definition getAllKamus ::
  "int \<Rightarrow> int \<Rightarrow> thrown + kamus_payload \<Rightarrow> (nat \<Rightarrow> string) \<Rightarrow> KamusRepo
     \<Rightarrow> (repo_error + Kamus list) \<times> KamusRepo" where
  "getAllKamus now0 now1 outcome rnd st =
     (case (if isCacheValidK now0 (kamusCache st) then kamusCache st else None) of
        Some ce \<Rightarrow> (Inr (data ce), st)
      | None \<Rightarrow>
          (case processResponse outcome of
             Inr items \<Rightarrow>
               (let kamusList = map_items now1 rnd ''0'' items
                in (Inr kamusList,
                    st\<lparr> kamusCache := Some \<lparr> data = kamusList, timestamp = now1 \<rparr>,
                        searchIndex := buildSearchIndex kamusList \<rparr>))
           | Inl error \<Rightarrow>
               (case kamusCache st of
                  Some ce \<Rightarrow> (Inr (data ce), st)
                | None \<Rightarrow> (Inl error, st))))"

text \<open>
  \<open>getKamusById\<close>: a match in the valid full-list cache, else \<open>getAllKamus\<close> and a
  scan of its result; \<open>Inr None\<close> is \<open>null\<close>.
\<close>

definition getKamusById ::
  "int \<Rightarrow> int \<Rightarrow> thrown + kamus_payload \<Rightarrow> (nat \<Rightarrow> string) \<Rightarrow> string \<Rightarrow> KamusRepo
     \<Rightarrow> (repo_error + Kamus option) \<times> KamusRepo" where
  "getKamusById now0 now1 outcome rnd ident st =
     (case (case (if isCacheValidK now0 (kamusCache st) then kamusCache st else None) of
              None \<Rightarrow> None
            | Some ce \<Rightarrow> find (\<lambda>kamus. idK kamus = ident) (data ce)) of
        Some cachedKamus \<Rightarrow> (Inr (Some cachedKamus), st)
      | None \<Rightarrow>
          (case getAllKamus now0 now1 outcome rnd st of
             (Inl error, st') \<Rightarrow> (Inl error, st')
           | (Inr allKamus, st') \<Rightarrow> (Inr (find (\<lambda>kamus. idK kamus = ident) allKamus), st')))"

definition getKamusByNegeriId ::
  "int \<Rightarrow> int \<Rightarrow> thrown + kamus_payload \<Rightarrow> (nat \<Rightarrow> string) \<Rightarrow> string \<Rightarrow> KamusRepo
     \<Rightarrow> (repo_error + Kamus list) \<times> KamusRepo" where
  "getKamusByNegeriId now0 now1 outcome rnd nid st =
     (let cachedEntry = map_of (kamusByNegeriCache st) nid
      in case (if isCacheValidK now0 cachedEntry then cachedEntry else None) of
           Some ce \<Rightarrow> (Inr (data ce), st)
         | None \<Rightarrow>
             (case processResponse outcome of
                Inr items \<Rightarrow>
                  (let kamusList = map_items now1 rnd nid items
                   in (Inr kamusList,
                       st\<lparr> kamusByNegeriCache :=
                             AList.update nid \<lparr> data = kamusList, timestamp = now1 \<rparr>
                               (kamusByNegeriCache st) \<rparr>))
              | Inl error \<Rightarrow>
                  (case map_of (kamusByNegeriCache st) nid of
                     Some ce \<Rightarrow> (Inr (data ce), st)
                   | None \<Rightarrow> (Inl error, st))))"

text \<open>The substring scan of \<open>searchKamus\<close>, used for short keywords and as fallback.\<close>

definition simple_filter :: "Kamus list \<Rightarrow> string \<Rightarrow> Kamus list" where
  "simple_filter allKamus trimmedKeyword =
     (let lowercaseKeyword = toLowerCase trimmedKeyword
      in filter (\<lambda>kamus. includesJS (toLowerCase (word kamus)) lowercaseKeyword
                        \<or> includesJS (toLowerCase (meaning kamus)) lowercaseKeyword) allKamus)"

text \<open>
  One round of the loop over the search tokens: \<open>matchingIds\<close> is \<open>None\<close> while
  undefined; a token without an index entry leaves it as it is.
\<close>

definition match_token :: "search_index \<Rightarrow> string \<Rightarrow> string list option \<Rightarrow> string list option" where
  "match_token idx token matchingIds =
     (case map_of idx token of
        None \<Rightarrow> matchingIds
      | Some tokenMatches \<Rightarrow>
          (case matchingIds of
             None \<Rightarrow> Some tokenMatches
           | Some ids \<Rightarrow> Some (filter (\<lambda>i. i \<in> set tokenMatches) ids)))"

text \<open>\<open>searchKamus\<close> from the length test on, with the list and the index at hand.\<close>

definition search_loaded :: "Kamus list \<Rightarrow> search_index \<Rightarrow> string \<Rightarrow> Kamus list" where
  "search_loaded allKamus idx trimmedKeyword =
     (if length trimmedKeyword \<le> 2 then simple_filter allKamus trimmedKeyword
      else
        (let searchTokens = tokenizeText trimmedKeyword
         in if searchTokens = [] then []
            else
              (case fold (match_token idx) searchTokens None of
                 None \<Rightarrow> simple_filter allKamus trimmedKeyword
               | Some ids \<Rightarrow>
                   if ids = [] then simple_filter allKamus trimmedKeyword
                   else filter (\<lambda>kamus. idK kamus \<in> set ids) allKamus)))"

definition searchKamus ::
  "int \<Rightarrow> int \<Rightarrow> thrown + kamus_payload \<Rightarrow> (nat \<Rightarrow> string) \<Rightarrow> string \<Rightarrow> KamusRepo
     \<Rightarrow> (repo_error + Kamus list) \<times> KamusRepo" where
  "searchKamus now0 now1 outcome rnd keyword st =
     (let trimmedKeyword = trim keyword
      in if trimmedKeyword = [] then (Inr [], st)
         else
           (case getAllKamus now0 now1 outcome rnd st of
              (Inl error, st') \<Rightarrow> (Inl error, st')
            | (Inr allKamus, st') \<Rightarrow>
                (let st'' = (if searchIndex st' = []
                             then st'\<lparr> searchIndex := buildSearchIndex allKamus \<rparr> else st')
                 in (Inr (search_loaded allKamus (searchIndex st'') trimmedKeyword), st''))))"

text \<open>\<open>clearCache\<close> and \<open>clearNegeriCache\<close> of the entry repository.\<close>

definition clearCacheK :: "KamusRepo \<Rightarrow> KamusRepo" where
  "clearCacheK st = \<lparr> kamusCache = None, kamusByNegeriCache = [], searchIndex = [] \<rparr>"

definition clearNegeriCacheK :: "string \<Rightarrow> KamusRepo \<Rightarrow> KamusRepo" where
  "clearNegeriCacheK nid st = st\<lparr> kamusByNegeriCache := AList.delete nid (kamusByNegeriCache st) \<rparr>"

section \<open>Region Repository (NegeriRepositoryImpl)\<close>

record NegeriRepo =
  negeriCache :: "Negeri list CacheEntry option"
  negeriByIdCache :: "(string \<times> Negeri CacheEntry) list"

definition cacheExpirationTimeN :: int where
  "cacheExpirationTimeN = 15 * 60 * 1000"

definition isCacheValidN :: "int \<Rightarrow> 'a CacheEntry option \<Rightarrow> bool" where
  "isCacheValidN now cache =
     (case cache of None \<Rightarrow> False | Some ce \<Rightarrow> now - timestamp ce < cacheExpirationTimeN)"

text \<open>
  \<open>getAllNegeri\<close>; the body of the list endpoint is taken at its declared type, an
  array of \<open>Negeri\<close>.
\<close>

definition getAllNegeri ::
  "int \<Rightarrow> int \<Rightarrow> thrown + Negeri list \<Rightarrow> NegeriRepo \<Rightarrow> (thrown + Negeri list) \<times> NegeriRepo" where
  "getAllNegeri now0 now1 outcome st =
     (case (if isCacheValidN now0 (negeriCache st) then negeriCache st else None) of
        Some ce \<Rightarrow> (Inr (data ce), st)
      | None \<Rightarrow>
          (case outcome of
             Inr negeriList \<Rightarrow>
               (Inr negeriList,
                st\<lparr> negeriCache := Some \<lparr> data = negeriList, timestamp = now1 \<rparr>,
                    negeriByIdCache :=
                      fold (\<lambda>negeri. AList.update (idN negeri) \<lparr> data = negeri, timestamp = now1 \<rparr>)
                        negeriList (negeriByIdCache st) \<rparr>)
           | Inl error \<Rightarrow>
               (case negeriCache st of
                  Some ce \<Rightarrow> (Inr (data ce), st)
                | None \<Rightarrow> (Inl error, st))))"

text \<open>The scan of the full-list cache in \<open>getNegeriById\<close>, when that cache is valid.\<close>

definition scan_list_cache :: "int \<Rightarrow> NegeriRepo \<Rightarrow> string \<Rightarrow> Negeri option" where
  "scan_list_cache now st ident =
     (case (if isCacheValidN now (negeriCache st) then negeriCache st else None) of
        None \<Rightarrow> None
      | Some ce \<Rightarrow> find (\<lambda>negeri. idN negeri = ident) (data ce))"

definition backfill :: "string \<Rightarrow> Negeri \<Rightarrow> int \<Rightarrow> NegeriRepo \<Rightarrow> NegeriRepo" where
  "backfill ident negeri now st =
     st\<lparr> negeriByIdCache := AList.update ident \<lparr> data = negeri, timestamp = now \<rparr> (negeriByIdCache st) \<rparr>"

text \<open>
  \<open>getNegeriById\<close>: \<open>now0\<close> is the clock on entry, \<open>now1\<close> once the point fetch has
  settled to \<open>point\<close>, \<open>now2\<close> once the list fetch of \<open>getAllNegeri\<close> has settled to
  \<open>listing\<close>. The result \<open>Inr None\<close> is \<open>null\<close>.
\<close>

definition getNegeriById ::
  "int \<Rightarrow> int \<Rightarrow> int \<Rightarrow> thrown + Negeri \<Rightarrow> thrown + Negeri list \<Rightarrow> string \<Rightarrow> NegeriRepo
     \<Rightarrow> (thrown + Negeri option) \<times> NegeriRepo" where
  "getNegeriById now0 now1 now2 point listing ident st =
     (let cachedEntry = map_of (negeriByIdCache st) ident
      in case (if isCacheValidN now0 cachedEntry then cachedEntry else None) of
           Some ce \<Rightarrow> (Inr (Some (data ce)), st)
         | None \<Rightarrow>
             (case scan_list_cache now0 st ident of
                Some cachedNegeri \<Rightarrow> (Inr (Some cachedNegeri), backfill ident cachedNegeri now0 st)
              | None \<Rightarrow>
                  (case point of
                     Inr negeri \<Rightarrow> (Inr (Some negeri), backfill ident negeri now1 st)
                   | Inl directError \<Rightarrow>
                       (case getAllNegeri now1 now2 listing st of
                          (Inr allNegeri, st') \<Rightarrow>
                            (case find (\<lambda>negeri. idN negeri = ident) allNegeri of
                               Some foundNegeri \<Rightarrow>
                                 (Inr (Some foundNegeri),
                                  backfill ident foundNegeri
                                    (if isCacheValidN now1 (negeriCache st) then now1 else now2) st')
                             | None \<Rightarrow> (Inr None, st'))
                        | (Inl error, st') \<Rightarrow>
                            (case map_of (negeriByIdCache st') ident of
                               Some ce \<Rightarrow> (Inr (Some (data ce)), st')
                             | None \<Rightarrow> (Inl error, st'))))))"

text \<open>\<open>clearCache\<close> and \<open>clearNegeriCache\<close> of the region repository.\<close>

definition clearCacheN :: "NegeriRepo \<Rightarrow> NegeriRepo" where
  "clearCacheN st = \<lparr> negeriCache = None, negeriByIdCache = [] \<rparr>"

definition clearNegeriCacheN :: "string \<Rightarrow> NegeriRepo \<Rightarrow> NegeriRepo" where
  "clearNegeriCacheN ident st = st\<lparr> negeriByIdCache := AList.delete ident (negeriByIdCache st) \<rparr>"

section \<open>Notions used in the statements\<close>

text \<open>The value is an array (the one kind of truthy value whose \<open>String()\<close> can be empty).\<close>

definition is_array :: "jsval option \<Rightarrow> bool" where
  "is_array v = (case v of Some (JArr xs) \<Rightarrow> True | _ \<Rightarrow> False)"

text \<open>The identifier is missing or has its declared type, string or number.\<close>

definition declared_id :: "jsval option \<Rightarrow> bool" where
  "declared_id v =
     (case v of None \<Rightarrow> True | Some (JStr s) \<Rightarrow> True | Some (JNum n) \<Rightarrow> True | Some other \<Rightarrow> False)"

text \<open>
  The fetch of the entry list fails: the gateway call is rejected, or its body is empty
  or neither an array nor an object, the cases in which the \<open>try\<close> block throws.
\<close>

definition fetch_fails :: "thrown + kamus_payload \<Rightarrow> bool" where
  "fetch_fails outcome =
     (case outcome of
        Inl t \<Rightarrow> True
      | Inr PayloadFalsy \<Rightarrow> True
      | Inr PayloadOther \<Rightarrow> True
      | Inr (PayloadArray items) \<Rightarrow> False
      | Inr (PayloadObject obj) \<Rightarrow> False)"

text \<open>
  No cache entry is lost between two states of a repository: a full-list cache that was
  set is still set, and every key of a keyed cache is still a key.
\<close>

definition kamus_entries_kept :: "KamusRepo \<Rightarrow> KamusRepo \<Rightarrow> bool" where
  "kamus_entries_kept st st' =
     ((kamusCache st \<noteq> None \<longrightarrow> kamusCache st' \<noteq> None)
      \<and> set (map fst (kamusByNegeriCache st)) \<subseteq> set (map fst (kamusByNegeriCache st')))"

definition negeri_entries_kept :: "NegeriRepo \<Rightarrow> NegeriRepo \<Rightarrow> bool" where
  "negeri_entries_kept st st' =
     ((negeriCache st \<noteq> None \<longrightarrow> negeriCache st' \<noteq> None)
      \<and> set (map fst (negeriByIdCache st)) \<subseteq> set (map fst (negeriByIdCache st')))"

text \<open>The ids that the index lists under a token; none if the token has no entry.\<close>

definition index_ids :: "search_index \<Rightarrow> string \<Rightarrow> string set" where
  "index_ids idx token = (case map_of idx token of None \<Rightarrow> {} | Some ids \<Rightarrow> set ids)"

text \<open>The tokens of a query that have an entry in the index.\<close>

definition indexed_tokens :: "search_index \<Rightarrow> string list \<Rightarrow> string list" where
  "indexed_tokens idx toks = filter (\<lambda>t. map_of idx t \<noteq> None) toks"

text \<open>
  The entries whose word or meaning contains the keyword, both lower-cased, as a
  contiguous substring (\<open>sublist\<close>).
\<close>

definition substring_scan :: "Kamus list \<Rightarrow> string \<Rightarrow> Kamus list" where
  "substring_scan allKamus kw =
     filter (\<lambda>kamus. sublist (toLowerCase kw) (toLowerCase (word kamus))
                     \<or> sublist (toLowerCase kw) (toLowerCase (meaning kamus))) allKamus"

text \<open>Sample data for the concrete runs: a raw record, the entry it maps to, a region.\<close>

definition sample_raw :: "int \<Rightarrow> string \<Rightarrow> string \<Rightarrow> raw_item" where
  "sample_raw i w m =
     Some \<lparr> idR = Some (JNum i), dialek = Some w, maksud = Some m, contoh_ayat = None,
            negeri_id = Some (JNum 1), negeri_obj = None \<rparr>"

definition sample_entry :: "string \<Rightarrow> string \<Rightarrow> string \<Rightarrow> Kamus" where
  "sample_entry i w m =
     \<lparr> idK = i, word = w, meaning = m, example = None, negeriId = ''1'',
       negeriName = Some ''Unknown Region'', notesK = None, tags = None \<rparr>"

definition empty_repo :: KamusRepo where
  "empty_repo = \<lparr> kamusCache = None, kamusByNegeriCache = [], searchIndex = [] \<rparr>"

definition negeri_of :: "string \<Rightarrow> string \<Rightarrow> Negeri" where
  "negeri_of i n = \<lparr> idN = i, name = n, description = None, capital = None, flag = None, emblem = None \<rparr>"

section \<open>String and list lemmas\<close>

lemma includesJS_sublist: "includesJS s t \<longleftrightarrow> sublist t s"
  by (induction s) (auto simp: sublist_Cons_right)

lemma split_where_nonempty: "split_where sep s \<noteq> []"
  by (induction s) (auto split: list.splits)

lemma split_where_hd_prefix: "prefix (hd (split_where sep s)) s"
  by (induction s) (auto split: list.splits)

lemma includes_own_resourcePath: "includesJS k (resourcePath k)"
  using split_where_hd_prefix[of "\<lambda>c. c = CHR ''/''" k] split_where_nonempty[of "\<lambda>c. c = CHR ''/''" k]
  by (auto simp: includesJS_sublist resourcePath_def split_slash_def split: list.splits
           intro: prefix_imp_sublist)

lemma decimal_nonempty: "decimal n \<noteq> []"
  by (subst decimal.simps) simp

lemma number_toString_nonempty: "number_toString i \<noteq> []"
  by (simp add: number_toString_def decimal_nonempty)

lemma string_or_nonempty:
  "string_or v d = Some s \<Longrightarrow> d \<noteq> [] \<Longrightarrow> \<not> is_array v \<Longrightarrow> s \<noteq> []"
  by (auto simp: string_or_def is_array_def number_toString_nonempty
           split: option.splits jsval.splits if_splits)

section \<open>Request Gateway: invalidation after a mutation\<close>

lemma fold_delete_filter:
  "fold (\<lambda>k acc. if P k then AList.delete k acc else acc) ks c
     = filter (\<lambda>(k, e). \<not> (k \<in> set ks \<and> P k)) c"
proof (induction ks arbitrary: c)
  case Nil
  then show ?case by simp
next
  case (Cons k ks)
  show ?case
    by (auto simp: Cons.IH AList.delete_eq intro!: filter_cong)
qed

lemma invalidateRelatedCache_filter:
  "invalidateRelatedCache c url = filter (\<lambda>(k, e). \<not> includesJS k (resourcePath url)) c"
  unfolding invalidateRelatedCache_def fold_delete_filter
  by (rule filter_cong) force+

text \<open>
  A url that begins with a slash, as every endpoint constant of the repository does, splits
  into an empty first part; every key contains the empty string, so the whole cache goes.
\<close>

lemma resourcePath_leading_slash: "resourcePath (CHR ''/'' # rest) = []"
  by (simp add: resourcePath_def split_slash_def)

lemma invalidateRelatedCache_leading_slash: "invalidateRelatedCache c (CHR ''/'' # rest) = []"
  by (simp add: invalidateRelatedCache_filter resourcePath_leading_slash includesJS_sublist)

text \<open>
  C1, as stated, fails: the cached GET of \<open>kamus/negeri/5\<close> has the leading segment
  \<open>kamus\<close>, the mutated url \<open>negeri/5\<close> the leading segment \<open>negeri\<close>, and the
  entry is evicted all the same, because its key contains \<open>negeri\<close>.
\<close>

theorem mutation_evicts_other_leading_segment:
  "resourcePath ''kamus/negeri/5'' \<noteq> resourcePath ''negeri/5'' \<and>
   map_of (snd (put (NetOk JNull)
                  [(''kamus/negeri/5'', \<lparr> data = JArr [], timestamp = 0, expiresAt = 300000 \<rparr>)]
                  ''negeri/5''))
     ''kamus/negeri/5'' = None"
  by code_simp

text \<open>
  C1, amended: after a successful POST, PUT or DELETE to a url whose first part (the text
  before its first slash) is not empty, the cache keeps, in their order and unchanged,
  exactly the entries whose key does not contain that first part as a substring; every
  entry whose key contains it anywhere is evicted.
\<close>

theorem mutation_evicts_keys_containing_resource:
  assumes "resourcePath url \<noteq> []"
  shows "snd (post (NetOk body) c url) = filter (\<lambda>(k, e). \<not> sublist (resourcePath url) k) c
       \<and> snd (put (NetOk body) c url) = filter (\<lambda>(k, e). \<not> sublist (resourcePath url) k) c
       \<and> snd (delete (NetOk body) c url) = filter (\<lambda>(k, e). \<not> sublist (resourcePath url) k) c"
  by (simp add: post_def put_def delete_def mutate_def invalidateRelatedCache_filter includesJS_sublist)

theorem mutation_evicts_keys_containing_resource_witness:
  "resourcePath ''kamus/7'' \<noteq> [] \<and>
   snd (post (NetOk JNull)
          [(''kamus/negeri/5'', \<lparr> data = JArr [], timestamp = 0, expiresAt = 300000 \<rparr>),
           (''negeri'', \<lparr> data = JArr [], timestamp = 0, expiresAt = 300000 \<rparr>)] ''kamus/7'')
     = [(''negeri'', \<lparr> data = JArr [], timestamp = 0, expiresAt = 300000 \<rparr>)]"
proof -
  have h: "resourcePath ''kamus/7'' \<noteq> []" by code_simp
  have r: "resourcePath ''kamus/7'' = ''kamus''" by code_simp
  show ?thesis
    using h mutation_evicts_keys_containing_resource [OF h, of JNull
      "[(''kamus/negeri/5'', \<lparr> data = JArr [], timestamp = 0, expiresAt = 300000 \<rparr>),
        (''negeri'', \<lparr> data = JArr [], timestamp = 0, expiresAt = 300000 \<rparr>)]"]
    by (simp add: r includesJS_sublist[symmetric])
qed

section \<open>Request Gateway: GET\<close>

text \<open>
  With caching on, an expired entry is deleted by the validity check before the network
  call, so a failing call then finds nothing to fall back to.
\<close>

lemma get_expired_entry_is_gone_at_failure:
  assumes "\<not> skipCache opts" and "map_of c (cacheKey_of url params) = Some e"
    and "\<not> now0 < expiresAt e"
  shows "get now0 now1 (NetFail err) c url params opts
           = (Inl (get_error url err), AList.delete (cacheKey_of url params) c)"
  using assms
  by (simp add: get_def getValidCacheData_def get_settle_def Let_def delete_conv')

text \<open>
  C2: when the network call of a GET fails, the entry that the cache holds for the key at
  that moment decides the result: its data is returned if there is one, whatever its age,
  and the error is thrown only if there is none. This holds for the continuation of
  \<open>get\<close> on any cache, and for a whole run of \<open>get\<close> that reaches the network,
  where the cache at that moment is the one left by the validity check.
\<close>

theorem get_failure_returns_cached_entry:
  assumes "\<not> get_hit now0 c (cacheKey_of url params) opts"
    and "get now0 now1 (NetFail err) c url params opts = (r, c')"
  shows "c' = (if skipCache opts then c else snd (getValidCacheData now0 c (cacheKey_of url params)))
       \<and> (case map_of c' (cacheKey_of url params) of
            Some entry \<Rightarrow> r = Inr (data entry)
          | None \<Rightarrow> r = Inl (get_error url err))
       \<and> get_settle now cm url key opts (NetFail err)
           = (case map_of cm key of
                Some entry \<Rightarrow> (Inr (data entry), cm)
              | None \<Rightarrow> (Inl (get_error url err), cm))"
  using assms
  by (auto simp: get_def get_hit_def get_settle_def Let_def split: prod.splits option.splits if_splits)

theorem get_failure_returns_cached_entry_witness:
  "\<not> get_hit 400000 [(''/kamus'', \<lparr> data = JStr ''old'', timestamp = 0, expiresAt = 300000 \<rparr>)]
        (cacheKey_of ''/kamus'' None) \<lparr> skipCache = True, expirationMs = None \<rparr>
   \<and> get 400000 400100 (NetFail ErrNetwork)
        [(''/kamus'', \<lparr> data = JStr ''old'', timestamp = 0, expiresAt = 300000 \<rparr>)]
        ''/kamus'' None \<lparr> skipCache = True, expirationMs = None \<rparr>
      = (Inr (JStr ''old''), [(''/kamus'', \<lparr> data = JStr ''old'', timestamp = 0, expiresAt = 300000 \<rparr>)])
   \<and> map_of [(''/kamus'', \<lparr> data = JStr ''old'', timestamp = 0, expiresAt = 300000 \<rparr>)]
        (cacheKey_of ''/kamus'' None)
      = Some \<lparr> data = JStr ''old'', timestamp = 0, expiresAt = 300000 \<rparr>"
proof -
  have h1: "\<not> get_hit 400000 [(''/kamus'', \<lparr> data = JStr ''old'', timestamp = 0, expiresAt = 300000 \<rparr>)]
        (cacheKey_of ''/kamus'' None) \<lparr> skipCache = True, expirationMs = None \<rparr>"
    by (simp add: get_hit_def)
  have h2: "get 400000 400100 (NetFail ErrNetwork)
        [(''/kamus'', \<lparr> data = JStr ''old'', timestamp = 0, expiresAt = 300000 \<rparr>)]
        ''/kamus'' None \<lparr> skipCache = True, expirationMs = None \<rparr>
      = (Inr (JStr ''old''), [(''/kamus'', \<lparr> data = JStr ''old'', timestamp = 0, expiresAt = 300000 \<rparr>)])"
    by (simp add: get_def get_settle_def cacheKey_of_def)
  show ?thesis
    using h1 h2 get_failure_returns_cached_entry [OF h1 h2]
    by (simp add: cacheKey_of_def)
qed

text \<open>
  C10: a GET with \<open>skipCache\<close> that succeeds returns the fresh body and leaves the
  response cache exactly as it was: nothing is read from it and nothing is written to it.
\<close>

theorem get_skipCache_leaves_cache_unchanged:
  "skipCache opts \<Longrightarrow> get now0 now1 (NetOk body) c url params opts = (Inr body, c)"
  by (simp add: get_def get_settle_def)

theorem get_skipCache_leaves_cache_unchanged_witness:
  "skipCache \<lparr> skipCache = True, expirationMs = Some 1000 \<rparr>
   \<and> get 10 20 (NetOk (JStr ''fresh''))
        [(''/kamus'', \<lparr> data = JStr ''old'', timestamp = 0, expiresAt = 300000 \<rparr>)]
        ''/kamus'' None \<lparr> skipCache = True, expirationMs = Some 1000 \<rparr>
      = (Inr (JStr ''fresh''), [(''/kamus'', \<lparr> data = JStr ''old'', timestamp = 0, expiresAt = 300000 \<rparr>)])"
proof -
  have h: "skipCache \<lparr> skipCache = True, expirationMs = Some 1000 \<rparr>" by simp
  show ?thesis
    using h get_skipCache_leaves_cache_unchanged [OF h, of 10 20 "JStr ''fresh''"
      "[(''/kamus'', \<lparr> data = JStr ''old'', timestamp = 0, expiresAt = 300000 \<rparr>)]" "''/kamus''" None]
    by simp
qed

section \<open>Entry Repository: mapping and the full list\<close>

lemma length_map_items: "length (map_items now rnd nid items) = length items"
  by (simp add: map_items_def)

lemma nth_map_items:
  "i < length items \<Longrightarrow>
   map_items now rnd nid items ! i =
     (case mapApiResponseToKamus now (items ! i) of Inr k \<Rightarrow> k | Inl err \<Rightarrow> placeholder (rnd i) nid)"
  by (simp add: map_items_def nth_enumerate_eq)

lemma getAllKamus_fetch:
  "\<not> isCacheValidK now0 (kamusCache st) \<Longrightarrow> processResponse outcome = Inr items \<Longrightarrow>
   getAllKamus now0 now1 outcome rnd st =
     (Inr (map_items now1 rnd ''0'' items),
      st\<lparr> kamusCache := Some \<lparr> data = map_items now1 rnd ''0'' items, timestamp = now1 \<rparr>,
          searchIndex := buildSearchIndex (map_items now1 rnd ''0'' items) \<rparr>)"
  by (simp add: getAllKamus_def Let_def)

lemma getAllKamus_fallback:
  "\<not> isCacheValidK now0 (kamusCache st) \<Longrightarrow> processResponse outcome = Inl err \<Longrightarrow>
   getAllKamus now0 now1 outcome rnd st =
     (case kamusCache st of Some ce \<Rightarrow> (Inr (data ce), st) | None \<Rightarrow> (Inl err, st))"
  by (simp add: getAllKamus_def)

lemma getAllKamus_hit:
  "isCacheValidK now0 (kamusCache st) \<Longrightarrow> kamusCache st = Some ce \<Longrightarrow>
   getAllKamus now0 now1 outcome rnd st = (Inr (data ce), st)"
  by (simp add: getAllKamus_def)

lemma fetch_fails_iff: "fetch_fails outcome \<longleftrightarrow> (\<exists>err. processResponse outcome = Inl err)"
  by (auto simp: fetch_fails_def processResponse_def split: sum.splits kamus_payload.splits)

lemma getKamusByNegeriId_fetch:
  "\<not> isCacheValidK now0 (map_of (kamusByNegeriCache st) nid) \<Longrightarrow>
   processResponse outcome = Inr items \<Longrightarrow>
   fst (getKamusByNegeriId now0 now1 outcome rnd nid st) = Inr (map_items now1 rnd nid items)"
  by (simp add: getKamusByNegeriId_def Let_def)

lemma mapApiResponseToKamus_ids:
  assumes "mapApiResponseToKamus now (Some r) = Inr k"
  shows "(\<not> is_array (idR r) \<longrightarrow> idK k \<noteq> []) \<and> (\<not> is_array (negeri_id r) \<longrightarrow> negeriId k \<noteq> [])"
proof -
  from assms obtain ident nid where
    i: "string_or (idR r) (''unknown-'' @ number_toString now) = Some ident"
    and n: "string_or (negeri_id r) ''0'' = Some nid"
    and k: "idK k = ident" "negeriId k = nid"
    by (auto simp: mapApiResponseToKamus_def split: option.splits)
  from string_or_nonempty[OF i] string_or_nonempty[OF n] k show ?thesis by simp
qed

lemma mapApiResponseToKamus_declared:
  assumes "declared_id (idR r)" and "declared_id (negeri_id r)"
  shows "\<exists>k. mapApiResponseToKamus now (Some r) = Inr k"
proof -
  have d: "\<exists>s. string_or v dflt = Some s" if "declared_id v" for v dflt
    using that by (auto simp: declared_id_def string_or_def split: option.splits jsval.splits)
  from d[OF assms(1)] obtain a where
    a: "string_or (idR r) (''unknown-'' @ number_toString now) = Some a" by blast
  from d[OF assms(2)] obtain b where b: "string_or (negeri_id r) ''0'' = Some b" by blast
  show ?thesis
    using a b by (simp add: mapApiResponseToKamus_def)
qed

text \<open>
  C5, as stated, fails on malformed payloads. A raw item whose \<open>id\<close> is the empty array
  is truthy, so \<open>String(id)\<close> is taken, and that is the empty string. And the
  placeholder of \<open>getKamusByNegeriId\<close> carries the requested region id, which is empty
  when the empty id was requested.
\<close>

theorem getAllKamus_array_id_maps_to_empty_id:
  "fst (getAllKamus 0 1
          (Inr (PayloadArray
             [Some \<lparr> idR = Some (JArr []), dialek = Some ''nasi'', maksud = Some ''rice'',
                     contoh_ayat = None, negeri_id = Some (JNum 3), negeri_obj = None \<rparr>]))
          (\<lambda>i. ''k3x9q2a'')
          \<lparr> kamusCache = None, kamusByNegeriCache = [], searchIndex = [] \<rparr>)
   = Inr [\<lparr> idK = [], word = ''nasi'', meaning = ''rice'', example = None, negeriId = ''3'',
            negeriName = Some ''Unknown Region'', notesK = None, tags = None \<rparr>]
   \<and> fst (getKamusByNegeriId 0 1 (Inr (PayloadArray [None])) (\<lambda>i. ''k3x9q2a'') []
            \<lparr> kamusCache = None, kamusByNegeriCache = [], searchIndex = [] \<rparr>)
     = Inr [placeholder ''k3x9q2a'' []]
   \<and> negeriId (placeholder ''k3x9q2a'' []) = []"
  by code_simp

text \<open>
  C5, amended: a raw list of length N fetched by \<open>getAllKamus\<close> or
  \<open>getKamusByNegeriId\<close> is mapped to exactly N entries, position by position. An item on
  which \<open>mapApiResponseToKamus\<close> throws, as it does on a \<open>null\<close> item, becomes the
  placeholder with id \<open>error-\<close> plus its random suffix, whose region id is \<open>0\<close> in
  \<open>getAllKamus\<close> and the requested region id in \<open>getKamusByNegeriId\<close>. Any other
  item becomes the entry that \<open>mapApiResponseToKamus\<close> returns: its id is non-empty
  unless the raw \<open>id\<close> is an array, its region id is non-empty unless the raw
  \<open>negeri_id\<close> is an array. An item that is not \<open>null\<close> and whose two identifiers
  are missing or of their declared type, string or number, is always mapped so.
\<close>

theorem entry_lists_map_every_item:
  "(\<not> isCacheValidK nowA (kamusCache st) \<longrightarrow>
      fst (getAllKamus nowA nowB (Inr (PayloadArray items)) rnd st)
        = Inr (map_items nowB rnd ''0'' items))
   \<and> (\<not> isCacheValidK nowA (map_of (kamusByNegeriCache st) nid) \<longrightarrow>
      fst (getKamusByNegeriId nowA nowB (Inr (PayloadArray items)) rnd nid st)
        = Inr (map_items nowB rnd nid items))
   \<and> length (map_items nowB rnd region items) = length items
   \<and> (\<forall>i < length items.
        (case mapApiResponseToKamus nowB (items ! i) of
           Inl err \<Rightarrow> map_items nowB rnd region items ! i = placeholder (rnd i) region
                      \<and> idK (map_items nowB rnd region items ! i) = ''error-'' @ rnd i
                      \<and> negeriId (map_items nowB rnd region items ! i) = region
         | Inr k \<Rightarrow> map_items nowB rnd region items ! i = k)
        \<and> (case items ! i of
              None \<Rightarrow> mapApiResponseToKamus nowB (items ! i) = Inl TypeError
            | Some r \<Rightarrow>
                (\<forall>k. mapApiResponseToKamus nowB (Some r) = Inr k \<longrightarrow>
                       (\<not> is_array (idR r) \<longrightarrow> idK k \<noteq> [])
                     \<and> (\<not> is_array (negeri_id r) \<longrightarrow> negeriId k \<noteq> []))
                \<and> (declared_id (idR r) \<and> declared_id (negeri_id r) \<longrightarrow>
                     (\<exists>k. mapApiResponseToKamus nowB (Some r) = Inr k))))"
proof (intro conjI allI impI)
  have p: "processResponse (Inr (PayloadArray items)) = Inr items"
    by (simp add: processResponse_def)
  show "fst (getAllKamus nowA nowB (Inr (PayloadArray items)) rnd st)
          = Inr (map_items nowB rnd ''0'' items)"
    if "\<not> isCacheValidK nowA (kamusCache st)"
    using that p by (simp add: getAllKamus_fetch)
  show "fst (getKamusByNegeriId nowA nowB (Inr (PayloadArray items)) rnd nid st)
          = Inr (map_items nowB rnd nid items)"
    if "\<not> isCacheValidK nowA (map_of (kamusByNegeriCache st) nid)"
    using that p by (rule getKamusByNegeriId_fetch)
  show "length (map_items nowB rnd region items) = length items"
    by (rule length_map_items)
next
  fix i assume i: "i < length items"
  show "case mapApiResponseToKamus nowB (items ! i) of
          Inl err \<Rightarrow> map_items nowB rnd region items ! i = placeholder (rnd i) region
                     \<and> idK (map_items nowB rnd region items ! i) = ''error-'' @ rnd i
                     \<and> negeriId (map_items nowB rnd region items ! i) = region
        | Inr k \<Rightarrow> map_items nowB rnd region items ! i = k"
    using i by (simp add: nth_map_items placeholder_def split: sum.splits)
  show "case items ! i of
          None \<Rightarrow> mapApiResponseToKamus nowB (items ! i) = Inl TypeError
        | Some r \<Rightarrow>
            (\<forall>k. mapApiResponseToKamus nowB (Some r) = Inr k \<longrightarrow>
                   (\<not> is_array (idR r) \<longrightarrow> idK k \<noteq> [])
                 \<and> (\<not> is_array (negeri_id r) \<longrightarrow> negeriId k \<noteq> []))
            \<and> (declared_id (idR r) \<and> declared_id (negeri_id r) \<longrightarrow>
                 (\<exists>k. mapApiResponseToKamus nowB (Some r) = Inr k))"
  proof (cases "items ! i")
    case None
    then show ?thesis by (simp add: mapApiResponseToKamus_def)
  next
    case (Some r)
    then show ?thesis
      using mapApiResponseToKamus_ids[of nowB r] mapApiResponseToKamus_declared[of r nowB]
      by auto
  qed
qed

theorem entry_lists_map_every_item_witness:
  "\<not> isCacheValidK 0 (kamusCache \<lparr> kamusCache = None, kamusByNegeriCache = [], searchIndex = [] \<rparr>)
   \<and> fst (getAllKamus 0 1
            (Inr (PayloadArray
               [Some \<lparr> idR = Some (JNum 7), dialek = Some ''nasi'', maksud = None,
                       contoh_ayat = None, negeri_id = None, negeri_obj = None \<rparr>,
                None,
                Some \<lparr> idR = Some (JObj [(''toString'', JStr ''x'')]), dialek = Some ''roti'',
                       maksud = None, contoh_ayat = None, negeri_id = None, negeri_obj = None \<rparr>]))
            (\<lambda>i. ''k3x9q2a'')
            \<lparr> kamusCache = None, kamusByNegeriCache = [], searchIndex = [] \<rparr>)
     = Inr [\<lparr> idK = ''7'', word = ''nasi'', meaning = ''No meaning provided'', example = None,
              negeriId = ''0'', negeriName = Some ''Unknown Region'', notesK = None, tags = None \<rparr>,
            placeholder ''k3x9q2a'' ''0'', placeholder ''k3x9q2a'' ''0'']
   \<and> fst (getKamusByNegeriId 0 1
            (Inr (PayloadArray
               [Some \<lparr> idR = Some (JNum 7), dialek = Some ''nasi'', maksud = None,
                       contoh_ayat = None, negeri_id = None, negeri_obj = None \<rparr>,
                None,
                Some \<lparr> idR = Some (JObj [(''toString'', JStr ''x'')]), dialek = Some ''roti'',
                       maksud = None, contoh_ayat = None, negeri_id = None, negeri_obj = None \<rparr>]))
            (\<lambda>i. ''k3x9q2a'') ''5''
            \<lparr> kamusCache = None, kamusByNegeriCache = [], searchIndex = [] \<rparr>)
     = Inr [\<lparr> idK = ''7'', word = ''nasi'', meaning = ''No meaning provided'', example = None,
              negeriId = ''0'', negeriName = Some ''Unknown Region'', notesK = None, tags = None \<rparr>,
            placeholder ''k3x9q2a'' ''5'', placeholder ''k3x9q2a'' ''5'']"
proof -
  have h: "\<not> isCacheValidK 0 (kamusCache \<lparr> kamusCache = None, kamusByNegeriCache = [], searchIndex = [] \<rparr>)"
    by (simp add: isCacheValidK_def)
  have g: "\<not> isCacheValidK 0
             (map_of (kamusByNegeriCache \<lparr> kamusCache = None, kamusByNegeriCache = [], searchIndex = [] \<rparr>) ''5'')"
    by (simp add: isCacheValidK_def)
  have m: "map_items 1 (\<lambda>i. ''k3x9q2a'') ''0''
             [Some \<lparr> idR = Some (JNum 7), dialek = Some ''nasi'', maksud = None,
                     contoh_ayat = None, negeri_id = None, negeri_obj = None \<rparr>,
              None,
              Some \<lparr> idR = Some (JObj [(''toString'', JStr ''x'')]), dialek = Some ''roti'',
                     maksud = None, contoh_ayat = None, negeri_id = None, negeri_obj = None \<rparr>]
           = [\<lparr> idK = ''7'', word = ''nasi'', meaning = ''No meaning provided'', example = None,
                negeriId = ''0'', negeriName = Some ''Unknown Region'', notesK = None, tags = None \<rparr>,
              placeholder ''k3x9q2a'' ''0'', placeholder ''k3x9q2a'' ''0'']"
    by code_simp
  have n: "map_items 1 (\<lambda>i. ''k3x9q2a'') ''5''
             [Some \<lparr> idR = Some (JNum 7), dialek = Some ''nasi'', maksud = None,
                     contoh_ayat = None, negeri_id = None, negeri_obj = None \<rparr>,
              None,
              Some \<lparr> idR = Some (JObj [(''toString'', JStr ''x'')]), dialek = Some ''roti'',
                     maksud = None, contoh_ayat = None, negeri_id = None, negeri_obj = None \<rparr>]
           = [\<lparr> idK = ''7'', word = ''nasi'', meaning = ''No meaning provided'', example = None,
                negeriId = ''0'', negeriName = Some ''Unknown Region'', notesK = None, tags = None \<rparr>,
              placeholder ''k3x9q2a'' ''5'', placeholder ''k3x9q2a'' ''5'']"
    by code_simp
  show ?thesis
    using h g entry_lists_map_every_item [where nowA = 0 and nowB = 1
      and items = "[Some \<lparr> idR = Some (JNum 7), dialek = Some ''nasi'', maksud = None,
               contoh_ayat = None, negeri_id = None, negeri_obj = None \<rparr>,
        None,
        Some \<lparr> idR = Some (JObj [(''toString'', JStr ''x'')]), dialek = Some ''roti'',
               maksud = None, contoh_ayat = None, negeri_id = None, negeri_obj = None \<rparr>]" and rnd = "\<lambda>i. ''k3x9q2a''" and nid = "''5''" and region = "''5''"
      and st = "\<lparr> kamusCache = None, kamusByNegeriCache = [], searchIndex = [] \<rparr>"]
    by (simp only: m n) simp
qed

text \<open>
  C6: when the fetch of \<open>getAllKamus\<close> fails and a full list was cached before, expired
  or not, that list is returned and nothing is thrown; and \<open>getAllKamus\<close> throws exactly
  when the fetch fails and there is no cached list.
\<close>

theorem getAllKamus_stale_fallback:
  "(fetch_fails outcome \<longrightarrow> (\<forall>ce. kamusCache st = Some ce \<longrightarrow>
       getAllKamus now0 now1 outcome rnd st = (Inr (data ce), st)))
   \<and> ((\<exists>err. fst (getAllKamus now0 now1 outcome rnd st) = Inl err)
        \<longleftrightarrow> (fetch_fails outcome \<and> kamusCache st = None))"
proof (intro conjI impI allI)
  fix ce assume f: "fetch_fails outcome" and c: "kamusCache st = Some ce"
  from f obtain err where e: "processResponse outcome = Inl err"
    by (auto simp: fetch_fails_iff)
  show "getAllKamus now0 now1 outcome rnd st = (Inr (data ce), st)"
    using c e
    by (cases "isCacheValidK now0 (kamusCache st)")
       (simp_all add: getAllKamus_hit getAllKamus_fallback)
next
  show "(\<exists>err. fst (getAllKamus now0 now1 outcome rnd st) = Inl err)
        \<longleftrightarrow> (fetch_fails outcome \<and> kamusCache st = None)"
  proof (cases "isCacheValidK now0 (kamusCache st)")
    case True
    then obtain ce where "kamusCache st = Some ce"
      by (cases "kamusCache st") (simp_all add: isCacheValidK_def)
    with True show ?thesis by (simp add: getAllKamus_hit)
  next
    case False
    show ?thesis
    proof (cases "processResponse outcome")
      case (Inl err)
      with False show ?thesis
        by (cases "kamusCache st") (simp_all add: getAllKamus_fallback fetch_fails_iff)
    next
      case (Inr items)
      with False show ?thesis
        by (simp add: getAllKamus_fetch fetch_fails_iff)
    qed
  qed
qed

theorem getAllKamus_stale_fallback_witness:
  "fetch_fails (Inl (Rethrown (ErrOther ''timeout'')))
   \<and> \<not> isCacheValidK 700000 (Some \<lparr> data = [placeholder ''k3x9q2a'' ''0''], timestamp = 0 \<rparr>)
   \<and> getAllKamus 700000 700100 (Inl (Rethrown (ErrOther ''timeout''))) (\<lambda>i. [])
        \<lparr> kamusCache = Some \<lparr> data = [placeholder ''k3x9q2a'' ''0''], timestamp = 0 \<rparr>,
          kamusByNegeriCache = [], searchIndex = [] \<rparr>
      = (Inr [placeholder ''k3x9q2a'' ''0''],
         \<lparr> kamusCache = Some \<lparr> data = [placeholder ''k3x9q2a'' ''0''], timestamp = 0 \<rparr>,
           kamusByNegeriCache = [], searchIndex = [] \<rparr>)
   \<and> (\<exists>err. fst (getAllKamus 700000 700100 (Inl (Rethrown (ErrOther ''timeout''))) (\<lambda>i. [])
                   \<lparr> kamusCache = None, kamusByNegeriCache = [], searchIndex = [] \<rparr>) = Inl err)"
proof -
  have f: "fetch_fails (Inl (Rethrown (ErrOther ''timeout'')))"
    by (simp add: fetch_fails_def)
  have v: "\<not> isCacheValidK 700000 (Some \<lparr> data = [placeholder ''k3x9q2a'' ''0''], timestamp = 0 \<rparr>)"
    by (simp add: isCacheValidK_def cacheExpirationTimeK_def)
  show ?thesis
    using f v
      getAllKamus_stale_fallback [of "Inl (Rethrown (ErrOther ''timeout''))"
        "\<lparr> kamusCache = Some \<lparr> data = [placeholder ''k3x9q2a'' ''0''], timestamp = 0 \<rparr>,
           kamusByNegeriCache = [], searchIndex = [] \<rparr>" 700000 700100 "\<lambda>i. []"]
      getAllKamus_stale_fallback [of "Inl (Rethrown (ErrOther ''timeout''))"
        "\<lparr> kamusCache = None, kamusByNegeriCache = [], searchIndex = [] \<rparr>" 700000 700100 "\<lambda>i. []"]
    by simp
qed

section \<open>Entry Repository: search\<close>

lemma simple_filter_scan: "simple_filter allKamus kw = substring_scan allKamus kw"
  by (simp add: simple_filter_def substring_scan_def includesJS_sublist Let_def)

lemma split_where_pieces: "p \<in> set (split_where sep s) \<Longrightarrow> c \<in> set p \<Longrightarrow> \<not> sep c"
proof (induction s arbitrary: p)
  case Nil
  then show ?case by simp
next
  case (Cons a s)
  show ?case
  proof (cases "sep a")
    case True
    with Cons show ?thesis by auto
  next
    case False
    obtain q qs where q: "split_where sep s = q # qs"
      using split_where_nonempty[of sep s] by (cases "split_where sep s") auto
    with False Cons.prems have "p = a # q \<or> p \<in> set qs" by simp
    then show ?thesis
    proof
      assume "p = a # q"
      with Cons.prems(2) have "c = a \<or> c \<in> set q" by auto
      then show ?thesis using False Cons.IH[of q] q by auto
    next
      assume "p \<in> set qs"
      then show ?thesis using Cons.IH[of p] Cons.prems(2) q by simp
    qed
  qed
qed

lemma is_space_not_word: "is_space c \<Longrightarrow> \<not> is_word_char c"
  by (auto simp: is_space_def is_word_char_def Let_def)

lemma dropWhile_none: "\<forall>c \<in> set p. \<not> P c \<Longrightarrow> dropWhile P p = p"
  by (cases p) auto

lemma trim_no_space: "\<forall>c \<in> set p. \<not> is_space c \<Longrightarrow> trim p = p"
proof -
  assume a: "\<forall>c \<in> set p. \<not> is_space c"
  then have "dropWhile is_space p = p" by (rule dropWhile_none)
  moreover from a have "\<forall>c \<in> set (rev p). \<not> is_space c" by simp
  then have "dropWhile is_space (rev p) = rev p" by (rule dropWhile_none)
  ultimately show ?thesis by (simp add: trim_def)
qed

lemma tokenizeText_eq:
  "tokenizeText t = filter (\<lambda>token. 1 < length token) (split_where (\<lambda>c. \<not> is_word_char c) (toLowerCase t))"
proof (cases "t = []")
  case True
  then show ?thesis by (simp add: tokenizeText_def toLowerCase_def)
next
  case False
  have tr: "map trim (filter (\<lambda>token. 1 < length token) (split_where (\<lambda>c. \<not> is_word_char c) (toLowerCase t)))
        = filter (\<lambda>token. 1 < length token) (split_where (\<lambda>c. \<not> is_word_char c) (toLowerCase t))"
  proof (rule map_idI)
    fix p assume "p \<in> set (filter (\<lambda>token. 1 < length token)
                        (split_where (\<lambda>c. \<not> is_word_char c) (toLowerCase t)))"
    then have "p \<in> set (split_where (\<lambda>c. \<not> is_word_char c) (toLowerCase t))" by simp
    then have "\<forall>c \<in> set p. is_word_char c"
      using split_where_pieces[of p "\<lambda>c. \<not> is_word_char c" "toLowerCase t"] by blast
    then have "\<forall>c \<in> set p. \<not> is_space c"
      using is_space_not_word by blast
    then show "trim p = p" by (rule trim_no_space)
  qed
  have ft: "filter (\<lambda>token. token \<noteq> []) (filter (\<lambda>token. 1 < length token) xs)
              = filter (\<lambda>token. 1 < length token) xs" for xs :: "string list"
    by (induction xs) auto
  show ?thesis using False
    by (simp only: tokenizeText_def tr ft if_False)
qed

lemma fold_match_Some:
  "\<exists>ids'. fold (match_token idx) toks (Some ids) = Some ids'
         \<and> set ids' = set ids \<inter> (\<Inter>t \<in> set (indexed_tokens idx toks). index_ids idx t)"
proof (induction toks arbitrary: ids)
  case Nil
  then show ?case by (simp add: indexed_tokens_def)
next
  case (Cons t toks)
  show ?case
  proof (cases "map_of idx t")
    case None
    then show ?thesis using Cons.IH[of ids]
      by (simp add: match_token_def indexed_tokens_def)
  next
    case (Some m)
    have step: "match_token idx t (Some ids) = Some (filter (\<lambda>i. i \<in> set m) ids)"
      by (simp add: match_token_def Some)
    have known: "indexed_tokens idx (t # toks) = t # indexed_tokens idx toks"
      by (simp add: indexed_tokens_def Some)
    have ids: "index_ids idx t = set m"
      by (simp add: index_ids_def Some)
    from Cons.IH[of "filter (\<lambda>i. i \<in> set m) ids"] obtain ids' where
      "fold (match_token idx) toks (Some (filter (\<lambda>i. i \<in> set m) ids)) = Some ids'"
      "set ids' = set (filter (\<lambda>i. i \<in> set m) ids)
                    \<inter> (\<Inter>t \<in> set (indexed_tokens idx toks). index_ids idx t)"
      by blast
    then show ?thesis
      by (auto simp: step known ids)
  qed
qed

lemma fold_match_None:
  "(indexed_tokens idx toks = [] \<longrightarrow> fold (match_token idx) toks None = None)
   \<and> (indexed_tokens idx toks \<noteq> [] \<longrightarrow>
        (\<exists>ids'. fold (match_token idx) toks None = Some ids'
               \<and> set ids' = (\<Inter>t \<in> set (indexed_tokens idx toks). index_ids idx t)))"
proof (induction toks)
  case Nil
  then show ?case by (simp add: indexed_tokens_def)
next
  case (Cons t toks)
  show ?case
  proof (cases "map_of idx t")
    case None
    then show ?thesis using Cons.IH
      by (simp add: match_token_def indexed_tokens_def)
  next
    case (Some m)
    have step: "match_token idx t None = Some m"
      by (simp add: match_token_def Some)
    have known: "indexed_tokens idx (t # toks) = t # indexed_tokens idx toks"
      by (simp add: indexed_tokens_def Some)
    have ids: "index_ids idx t = set m"
      by (simp add: index_ids_def Some)
    from fold_match_Some[of idx toks m] obtain ids' where
      "fold (match_token idx) toks (Some m) = Some ids'"
      "set ids' = set m \<inter> (\<Inter>t \<in> set (indexed_tokens idx toks). index_ids idx t)"
      by blast
    then show ?thesis
      by (simp add: step known ids)
  qed
qed

lemma search_loaded_long:
  assumes "2 < length kw"
  shows "search_loaded allKamus idx kw =
     (let toks = tokenizeText kw;
          known = indexed_tokens idx toks;
          common = (\<Inter>t \<in> set known. index_ids idx t)
      in if toks = [] then []
         else if known = [] \<or> common = {} then substring_scan allKamus kw
         else filter (\<lambda>kamus. idK kamus \<in> common) allKamus)"
proof (cases "indexed_tokens idx (tokenizeText kw) = []")
  case True
  with fold_match_None[of idx "tokenizeText kw"]
  have "fold (match_token idx) (tokenizeText kw) None = None" by simp
  with True assms show ?thesis
    by (simp add: search_loaded_def Let_def simple_filter_scan)
next
  case False
  with fold_match_None[of idx "tokenizeText kw"]
  obtain ids' where f: "fold (match_token idx) (tokenizeText kw) None = Some ids'"
    and s: "set ids' = (\<Inter>t \<in> set (indexed_tokens idx (tokenizeText kw)). index_ids idx t)"
    by auto
  have e: "ids' = [] \<longleftrightarrow> set ids' = {}" by simp
  from False have ne: "tokenizeText kw \<noteq> []" by (auto simp: indexed_tokens_def)
  show ?thesis using assms False ne
    by (simp add: search_loaded_def Let_def f e simple_filter_scan s del: set_empty)
qed

lemma getAllKamus_index_irrelevant:
  "fst (getAllKamus now0 now1 outcome rnd (st\<lparr> searchIndex := idx \<rparr>))
     = fst (getAllKamus now0 now1 outcome rnd st)"
  by (simp add: getAllKamus_def Let_def split: option.splits sum.splits)

lemma searchKamus_result:
  assumes "trim keyword \<noteq> []" and "getAllKamus now0 now1 outcome rnd st = (Inr allKamus, st')"
  shows "searchKamus now0 now1 outcome rnd keyword st =
     (Inr (search_loaded allKamus
             (if searchIndex st' = [] then buildSearchIndex allKamus else searchIndex st')
             (trim keyword)),
      st'\<lparr> searchIndex := (if searchIndex st' = [] then buildSearchIndex allKamus else searchIndex st') \<rparr>)"
  using assms by (simp add: searchKamus_def Let_def)

text \<open>
  C9: for a keyword whose trimmed length is 1 or 2, \<open>searchKamus\<close> returns exactly the
  entries of the loaded list whose word or meaning contains the trimmed keyword as a
  substring, compared in lower case, whatever the search index holds.
\<close>

theorem searchKamus_short_keyword_scan:
  assumes "length (trim keyword) = 1 \<or> length (trim keyword) = 2"
    and "fst (getAllKamus now0 now1 outcome rnd st) = Inr allKamus"
  shows "fst (searchKamus now0 now1 outcome rnd keyword (st\<lparr> searchIndex := idx \<rparr>))
           = Inr (filter (\<lambda>kamus. sublist (toLowerCase (trim keyword)) (toLowerCase (word kamus))
                                \<or> sublist (toLowerCase (trim keyword)) (toLowerCase (meaning kamus)))
                    allKamus)"
proof -
  from assms(2) have "fst (getAllKamus now0 now1 outcome rnd (st\<lparr> searchIndex := idx \<rparr>)) = Inr allKamus"
    by (simp add: getAllKamus_index_irrelevant)
  then obtain st' where g: "getAllKamus now0 now1 outcome rnd (st\<lparr> searchIndex := idx \<rparr>) = (Inr allKamus, st')"
    by (cases "getAllKamus now0 now1 outcome rnd (st\<lparr> searchIndex := idx \<rparr>)") simp
  from assms(1) have ne: "trim keyword \<noteq> []" by auto
  from assms(1) have le: "length (trim keyword) \<le> 2" by auto
  show ?thesis
    by (simp add: searchKamus_result[OF ne g] search_loaded_def le simple_filter_scan substring_scan_def)
qed

theorem searchKamus_short_keyword_scan_witness:
  "(length (trim '' A '') = 1 \<or> length (trim '' A '') = 2)
   \<and> fst (getAllKamus 0 1 (Inr (PayloadArray [sample_raw 1 ''ab'' ''xyz'', sample_raw 2 ''cd'' ''uvw'']))
            (\<lambda>i. []) empty_repo)
       = Inr [sample_entry ''1'' ''ab'' ''xyz'', sample_entry ''2'' ''cd'' ''uvw'']
   \<and> fst (searchKamus 0 1 (Inr (PayloadArray [sample_raw 1 ''ab'' ''xyz'', sample_raw 2 ''cd'' ''uvw'']))
            (\<lambda>i. []) '' A '' (empty_repo\<lparr> searchIndex := [(''zz'', [''9''])] \<rparr>))
       = Inr [sample_entry ''1'' ''ab'' ''xyz'']"
proof -
  have h1: "length (trim '' A '') = 1 \<or> length (trim '' A '') = 2" by code_simp
  have h2: "fst (getAllKamus 0 1 (Inr (PayloadArray [sample_raw 1 ''ab'' ''xyz'', sample_raw 2 ''cd'' ''uvw'']))
            (\<lambda>i. []) empty_repo)
       = Inr [sample_entry ''1'' ''ab'' ''xyz'', sample_entry ''2'' ''cd'' ''uvw'']" by code_simp
  have e: "filter (\<lambda>kamus. includesJS (toLowerCase (word kamus)) (toLowerCase (trim '' A ''))
                          \<or> includesJS (toLowerCase (meaning kamus)) (toLowerCase (trim '' A '')))
             [sample_entry ''1'' ''ab'' ''xyz'', sample_entry ''2'' ''cd'' ''uvw'']
           = [sample_entry ''1'' ''ab'' ''xyz'']" by code_simp
  show ?thesis
    using h1 h2 searchKamus_short_keyword_scan [OF h1 h2, of "[(''zz'', [''9''])]"] e
    by (simp only: includesJS_sublist)
qed

text \<open>
  C3, as stated, fails. With entries \<open>foo\<close>, \<open>baz\<close> and \<open>xfoo bazx\<close>, the index
  lists entry 1 under \<open>foo\<close> and entry 2 under \<open>baz\<close>; the query \<open>foo baz\<close> has an
  empty intersection, falls back to the substring scan and returns entry 3, which neither
  token matches in the index. The query \<open>foo zzz\<close> returns entry 1 although the index
  has no entry for \<open>zzz\<close>: that token is skipped.
\<close>

theorem searchKamus_returns_entry_no_token_matches:
  "fst (searchKamus 0 1
          (Inr (PayloadArray [sample_raw 1 ''foo'' ''first'', sample_raw 2 ''baz'' ''second'',
                              sample_raw 3 ''xfoo bazx'' ''third'']))
          (\<lambda>i. []) ''foo baz'' empty_repo)
     = Inr [sample_entry ''3'' ''xfoo bazx'' ''third'']
   \<and> index_ids (buildSearchIndex [sample_entry ''1'' ''foo'' ''first'', sample_entry ''2'' ''baz'' ''second'',
                                   sample_entry ''3'' ''xfoo bazx'' ''third'']) ''foo'' = {''1''}
   \<and> index_ids (buildSearchIndex [sample_entry ''1'' ''foo'' ''first'', sample_entry ''2'' ''baz'' ''second'',
                                   sample_entry ''3'' ''xfoo bazx'' ''third'']) ''baz'' = {''2''}
   \<and> fst (searchKamus 0 1
          (Inr (PayloadArray [sample_raw 1 ''foo'' ''first'', sample_raw 2 ''baz'' ''second'',
                              sample_raw 3 ''xfoo bazx'' ''third'']))
          (\<lambda>i. []) ''foo zzz'' empty_repo)
     = Inr [sample_entry ''1'' ''foo'' ''first'']
   \<and> index_ids (buildSearchIndex [sample_entry ''1'' ''foo'' ''first'', sample_entry ''2'' ''baz'' ''second'',
                                   sample_entry ''3'' ''xfoo bazx'' ''third'']) ''zzz'' = {}"
  by code_simp

text \<open>
  C3, amended: for a keyword whose trimmed length exceeds 2, the keyword is lower-cased,
  split at every character that is not a letter, digit or underscore, and pieces shorter
  than 2 are dropped. With no token left the result is empty. Otherwise the tokens that
  have no index entry are skipped and the id-sets of the others are intersected; if no
  token has an entry or the intersection is empty, the result is the substring scan of the
  whole keyword; otherwise it is exactly the loaded entries whose id is in the
  intersection. The index used is the repository's, rebuilt from the list if empty.
\<close>

theorem searchKamus_index_lookup:
  assumes "2 < length (trim keyword)"
    and "getAllKamus now0 now1 outcome rnd st = (Inr allKamus, st')"
  shows "fst (searchKamus now0 now1 outcome rnd keyword st) =
     Inr (let idx = (if searchIndex st' = [] then buildSearchIndex allKamus else searchIndex st');
              toks = filter (\<lambda>token. 1 < length token)
                       (split_where (\<lambda>c. \<not> is_word_char c) (toLowerCase (trim keyword)));
              known = indexed_tokens idx toks;
              common = (\<Inter>t \<in> set known. index_ids idx t)
          in if toks = [] then []
             else if known = [] \<or> common = {} then substring_scan allKamus (trim keyword)
             else filter (\<lambda>kamus. idK kamus \<in> common) allKamus)"
proof -
  from assms(1) have ne: "trim keyword \<noteq> []" by auto
  show ?thesis
    by (simp add: searchKamus_result[OF ne assms(2)] search_loaded_long[OF assms(1)] tokenizeText_eq Let_def)
qed

theorem searchKamus_index_lookup_witness:
  "2 < length (trim '' nasi LEMAK '')
   \<and> getAllKamus 0 1
        (Inr (PayloadArray [sample_raw 1 ''nasi lemak'' ''rice'', sample_raw 2 ''nasi goreng'' ''fried'']))
        (\<lambda>i. []) empty_repo
      = (Inr [sample_entry ''1'' ''nasi lemak'' ''rice'', sample_entry ''2'' ''nasi goreng'' ''fried''],
         \<lparr> kamusCache = Some \<lparr> data = [sample_entry ''1'' ''nasi lemak'' ''rice'',
                                        sample_entry ''2'' ''nasi goreng'' ''fried''], timestamp = 1 \<rparr>,
           kamusByNegeriCache = [],
           searchIndex = buildSearchIndex [sample_entry ''1'' ''nasi lemak'' ''rice'',
                                           sample_entry ''2'' ''nasi goreng'' ''fried''] \<rparr>)
   \<and> fst (searchKamus 0 1
            (Inr (PayloadArray [sample_raw 1 ''nasi lemak'' ''rice'', sample_raw 2 ''nasi goreng'' ''fried'']))
            (\<lambda>i. []) '' nasi LEMAK '' empty_repo)
       = Inr [sample_entry ''1'' ''nasi lemak'' ''rice'']"
proof -
  have h1: "2 < length (trim '' nasi LEMAK '')" by code_simp
  have h2: "getAllKamus 0 1
        (Inr (PayloadArray [sample_raw 1 ''nasi lemak'' ''rice'', sample_raw 2 ''nasi goreng'' ''fried'']))
        (\<lambda>i. []) empty_repo
      = (Inr [sample_entry ''1'' ''nasi lemak'' ''rice'', sample_entry ''2'' ''nasi goreng'' ''fried''],
         \<lparr> kamusCache = Some \<lparr> data = [sample_entry ''1'' ''nasi lemak'' ''rice'',
                                        sample_entry ''2'' ''nasi goreng'' ''fried''], timestamp = 1 \<rparr>,
           kamusByNegeriCache = [],
           searchIndex = buildSearchIndex [sample_entry ''1'' ''nasi lemak'' ''rice'',
                                           sample_entry ''2'' ''nasi goreng'' ''fried''] \<rparr>)"
    by code_simp
  have e: "(let idx = (if searchIndex \<lparr> kamusCache = Some \<lparr> data = [sample_entry ''1'' ''nasi lemak'' ''rice'',
                                        sample_entry ''2'' ''nasi goreng'' ''fried''], timestamp = 1 \<rparr>,
           kamusByNegeriCache = [],
           searchIndex = buildSearchIndex [sample_entry ''1'' ''nasi lemak'' ''rice'',
                                           sample_entry ''2'' ''nasi goreng'' ''fried''] \<rparr> = [] then buildSearchIndex [sample_entry ''1'' ''nasi lemak'' ''rice'', sample_entry ''2'' ''nasi goreng'' ''fried''] else searchIndex \<lparr> kamusCache = Some \<lparr> data = [sample_entry ''1'' ''nasi lemak'' ''rice'',
                                        sample_entry ''2'' ''nasi goreng'' ''fried''], timestamp = 1 \<rparr>,
           kamusByNegeriCache = [],
           searchIndex = buildSearchIndex [sample_entry ''1'' ''nasi lemak'' ''rice'',
                                           sample_entry ''2'' ''nasi goreng'' ''fried''] \<rparr>);
              toks = filter (\<lambda>token. 1 < length token)
                       (split_where (\<lambda>c. \<not> is_word_char c) (toLowerCase (trim '' nasi LEMAK '')));
              known = indexed_tokens idx toks;
              common = (\<Inter>t \<in> set known. index_ids idx t)
          in if toks = [] then []
             else if known = [] \<or> common = {} then substring_scan [sample_entry ''1'' ''nasi lemak'' ''rice'', sample_entry ''2'' ''nasi goreng'' ''fried''] (trim '' nasi LEMAK '')
             else filter (\<lambda>kamus. idK kamus \<in> common) [sample_entry ''1'' ''nasi lemak'' ''rice'', sample_entry ''2'' ''nasi goreng'' ''fried'']) = [sample_entry ''1'' ''nasi lemak'' ''rice'']"
    by code_simp
  show ?thesis
    using h1 h2 searchKamus_index_lookup [OF h1 h2]
    by (simp only: e)
qed

section \<open>Region Repository: lookup by id\<close>

lemma scan_list_cache_Some:
  "scan_list_cache now st ident = Some n \<longleftrightarrow>
     (\<exists>lc. negeriCache st = Some lc \<and> isCacheValidN now (Some lc)
           \<and> find (\<lambda>negeri. idN negeri = ident) (data lc) = Some n)"
  by (cases "negeriCache st") (auto simp: scan_list_cache_def isCacheValidN_def)

lemma scan_list_cache_None:
  "scan_list_cache now st ident = None \<longleftrightarrow>
     (\<forall>lc. negeriCache st = Some lc \<and> isCacheValidN now (Some lc) \<longrightarrow>
           find (\<lambda>negeri. idN negeri = ident) (data lc) = None)"
  by (cases "negeriCache st") (auto simp: scan_list_cache_def isCacheValidN_def)

lemma getNegeriById_step1:
  "map_of (negeriByIdCache st) ident = Some ce \<Longrightarrow> isCacheValidN now0 (Some ce) \<Longrightarrow>
   getNegeriById now0 now1 now2 point listing ident st = (Inr (Some (data ce)), st)"
  by (simp add: getNegeriById_def Let_def)

lemma getNegeriById_step2:
  "\<not> isCacheValidN now0 (map_of (negeriByIdCache st) ident) \<Longrightarrow>
   scan_list_cache now0 st ident = Some n \<Longrightarrow>
   getNegeriById now0 now1 now2 point listing ident st = (Inr (Some n), backfill ident n now0 st)"
  by (simp add: getNegeriById_def Let_def)

lemma getNegeriById_step3:
  "\<not> isCacheValidN now0 (map_of (negeriByIdCache st) ident) \<Longrightarrow>
   scan_list_cache now0 st ident = None \<Longrightarrow> point = Inr n \<Longrightarrow>
   getNegeriById now0 now1 now2 point listing ident st = (Inr (Some n), backfill ident n now1 st)"
  by (simp add: getNegeriById_def Let_def)

lemma getNegeriById_step4:
  "\<not> isCacheValidN now0 (map_of (negeriByIdCache st) ident) \<Longrightarrow>
   scan_list_cache now0 st ident = None \<Longrightarrow> point = Inl e \<Longrightarrow>
   getAllNegeri now1 now2 listing st = (Inr allNegeri, st') \<Longrightarrow>
   getNegeriById now0 now1 now2 point listing ident st =
     (case find (\<lambda>negeri. idN negeri = ident) allNegeri of
        Some foundNegeri \<Rightarrow>
          (Inr (Some foundNegeri),
           backfill ident foundNegeri (if isCacheValidN now1 (negeriCache st) then now1 else now2) st')
      | None \<Rightarrow> (Inr None, st'))"
  by (simp add: getNegeriById_def Let_def)

lemma getNegeriById_step5:
  "\<not> isCacheValidN now0 (map_of (negeriByIdCache st) ident) \<Longrightarrow>
   scan_list_cache now0 st ident = None \<Longrightarrow> point = Inl e \<Longrightarrow>
   getAllNegeri now1 now2 listing st = (Inl err, st') \<Longrightarrow>
   getNegeriById now0 now1 now2 point listing ident st =
     (case map_of (negeriByIdCache st') ident of
        Some ce \<Rightarrow> (Inr (Some (data ce)), st')
      | None \<Rightarrow> (Inl err, st'))"
  by (simp add: getNegeriById_def Let_def)

lemma getAllNegeri_throws:
  "getAllNegeri now0 now1 outcome st = (Inl err, st') \<longleftrightarrow>
     (outcome = Inl err \<and> negeriCache st = None \<and> st' = st)"
  by (cases outcome; cases "negeriCache st")
     (auto simp: getAllNegeri_def isCacheValidN_def)

text \<open>
  C7: \<open>getNegeriById\<close> answers (1) from a valid per-id entry; else (2) from a valid
  full-list cache that holds the id, writing the per-id entry; else (3) from the point
  fetch when it succeeds, writing the per-id entry; else (4) from \<open>getAllNegeri\<close> and
  a scan of its result, \<open>null\<close> if the id is not in it; and when \<open>getAllNegeri\<close>
  throws as well, from the per-id entry if there still is one, however old, and only
  otherwise with the error.
\<close>

theorem getNegeriById_lookup_order:
  "(\<forall>ce. map_of (negeriByIdCache st) ident = Some ce \<and> isCacheValidN nowA (Some ce) \<longrightarrow>
        getNegeriById nowA nowB nowC point listing ident st = (Inr (Some (data ce)), st))
   \<and> (\<not> isCacheValidN nowA (map_of (negeriByIdCache st) ident) \<longrightarrow>
        (\<forall>lc n. negeriCache st = Some lc \<and> isCacheValidN nowA (Some lc)
               \<and> find (\<lambda>negeri. idN negeri = ident) (data lc) = Some n \<longrightarrow>
           getNegeriById nowA nowB nowC point listing ident st
             = (Inr (Some n), backfill ident n nowA st))
      \<and> ((\<forall>lc. negeriCache st = Some lc \<and> isCacheValidN nowA (Some lc) \<longrightarrow>
                 find (\<lambda>negeri. idN negeri = ident) (data lc) = None) \<longrightarrow>
           (\<forall>n. point = Inr n \<longrightarrow>
              getNegeriById nowA nowB nowC point listing ident st
                = (Inr (Some n), backfill ident n nowB st))
         \<and> (\<forall>e. point = Inl e \<longrightarrow>
              (\<forall>allNegeri st'. getAllNegeri nowB nowC listing st = (Inr allNegeri, st') \<longrightarrow>
                 getNegeriById nowA nowB nowC point listing ident st
                   = (case find (\<lambda>negeri. idN negeri = ident) allNegeri of
                        Some foundNegeri \<Rightarrow>
                          (Inr (Some foundNegeri),
                           backfill ident foundNegeri
                             (if isCacheValidN nowB (negeriCache st) then nowB else nowC) st')
                      | None \<Rightarrow> (Inr None, st')))
            \<and> (\<forall>err st'. getAllNegeri nowB nowC listing st = (Inl err, st') \<longrightarrow>
                 listing = Inl err \<and> st' = st
                 \<and> getNegeriById nowA nowB nowC point listing ident st
                     = (case map_of (negeriByIdCache st) ident of
                          Some ce \<Rightarrow> (Inr (Some (data ce)), st)
                        | None \<Rightarrow> (Inl err, st))))))"
  unfolding scan_list_cache_None [symmetric]
proof (intro conjI allI impI)
  fix ce assume "map_of (negeriByIdCache st) ident = Some ce \<and> isCacheValidN nowA (Some ce)"
  then show "getNegeriById nowA nowB nowC point listing ident st = (Inr (Some (data ce)), st)"
    by (simp add: getNegeriById_step1)
next
  fix lc n
  assume i: "\<not> isCacheValidN nowA (map_of (negeriByIdCache st) ident)"
    and l: "negeriCache st = Some lc \<and> isCacheValidN nowA (Some lc)
            \<and> find (\<lambda>negeri. idN negeri = ident) (data lc) = Some n"
  from l have "scan_list_cache nowA st ident = Some n"
    unfolding scan_list_cache_Some by blast
  with i show "getNegeriById nowA nowB nowC point listing ident st
                 = (Inr (Some n), backfill ident n nowA st)"
    by (rule getNegeriById_step2)
next
  fix n
  assume "\<not> isCacheValidN nowA (map_of (negeriByIdCache st) ident)"
    "scan_list_cache nowA st ident = None" "point = Inr n"
  then show "getNegeriById nowA nowB nowC point listing ident st
               = (Inr (Some n), backfill ident n nowB st)"
    by (rule getNegeriById_step3)
next
  fix e allNegeri st'
  assume "\<not> isCacheValidN nowA (map_of (negeriByIdCache st) ident)"
    "scan_list_cache nowA st ident = None" "point = Inl e"
    "getAllNegeri nowB nowC listing st = (Inr allNegeri, st')"
  then show "getNegeriById nowA nowB nowC point listing ident st
               = (case find (\<lambda>negeri. idN negeri = ident) allNegeri of
                    Some foundNegeri \<Rightarrow>
                      (Inr (Some foundNegeri),
                       backfill ident foundNegeri
                         (if isCacheValidN nowB (negeriCache st) then nowB else nowC) st')
                  | None \<Rightarrow> (Inr None, st'))"
    by (rule getNegeriById_step4)
next
  fix e err st'
  assume a: "\<not> isCacheValidN nowA (map_of (negeriByIdCache st) ident)"
    "scan_list_cache nowA st ident = None" "point = Inl e"
    and g: "getAllNegeri nowB nowC listing st = (Inl err, st')"
  from g show "listing = Inl err" by (simp add: getAllNegeri_throws)
  from g show s: "st' = st" by (simp add: getAllNegeri_throws)
  from getNegeriById_step5[OF a g]
  show "getNegeriById nowA nowB nowC point listing ident st
          = (case map_of (negeriByIdCache st) ident of
               Some ce \<Rightarrow> (Inr (Some (data ce)), st)
             | None \<Rightarrow> (Inl err, st))"
    unfolding s .
qed

theorem getNegeriById_lookup_order_witness:
  "getNegeriById 1000 1100 1200 (Inl (Rethrown (ErrOther ''500''))) (Inl (Rethrown (ErrOther ''500''))) ''5''
      \<lparr> negeriCache = None,
        negeriByIdCache = [(''5'', \<lparr> data = negeri_of ''5'' ''Johor'', timestamp = 0 \<rparr>)] \<rparr>
     = (Inr (Some (negeri_of ''5'' ''Johor'')),
        \<lparr> negeriCache = None,
          negeriByIdCache = [(''5'', \<lparr> data = negeri_of ''5'' ''Johor'', timestamp = 0 \<rparr>)] \<rparr>)
   \<and> getNegeriById 1000 1100 1200 (Inl (Rethrown (ErrOther ''500''))) (Inl (Rethrown (ErrOther ''500''))) ''6''
      \<lparr> negeriCache = Some \<lparr> data = [negeri_of ''5'' ''Johor'', negeri_of ''6'' ''Kedah''], timestamp = 0 \<rparr>,
        negeriByIdCache = [] \<rparr>
     = (Inr (Some (negeri_of ''6'' ''Kedah'')),
        \<lparr> negeriCache = Some \<lparr> data = [negeri_of ''5'' ''Johor'', negeri_of ''6'' ''Kedah''], timestamp = 0 \<rparr>,
          negeriByIdCache = [(''6'', \<lparr> data = negeri_of ''6'' ''Kedah'', timestamp = 1000 \<rparr>)] \<rparr>)
   \<and> getNegeriById 1000 1100 1200 (Inr (negeri_of ''5'' ''Johor'')) (Inl (Rethrown (ErrOther ''500''))) ''5''
      \<lparr> negeriCache = None, negeriByIdCache = [] \<rparr>
     = (Inr (Some (negeri_of ''5'' ''Johor'')),
        \<lparr> negeriCache = None,
          negeriByIdCache = [(''5'', \<lparr> data = negeri_of ''5'' ''Johor'', timestamp = 1100 \<rparr>)] \<rparr>)
   \<and> getNegeriById 1000 1100 1200 (Inl (Rethrown (ErrOther ''404'')))
        (Inr [negeri_of ''5'' ''Johor'']) ''7''
      \<lparr> negeriCache = None, negeriByIdCache = [] \<rparr>
     = (Inr None,
        \<lparr> negeriCache = Some \<lparr> data = [negeri_of ''5'' ''Johor''], timestamp = 1200 \<rparr>,
          negeriByIdCache = [(''5'', \<lparr> data = negeri_of ''5'' ''Johor'', timestamp = 1200 \<rparr>)] \<rparr>)
   \<and> getNegeriById 1000000 1000100 1000200 (Inl (Rethrown (ErrOther ''404'')))
        (Inl (Rethrown (ErrOther ''timeout''))) ''5''
      \<lparr> negeriCache = None,
        negeriByIdCache = [(''5'', \<lparr> data = negeri_of ''5'' ''Johor'', timestamp = 0 \<rparr>)] \<rparr>
     = (Inr (Some (negeri_of ''5'' ''Johor'')),
        \<lparr> negeriCache = None,
          negeriByIdCache = [(''5'', \<lparr> data = negeri_of ''5'' ''Johor'', timestamp = 0 \<rparr>)] \<rparr>)
   \<and> getNegeriById 1000 1100 1200 (Inl (Rethrown (ErrOther ''404'')))
        (Inl (Rethrown (ErrOther ''timeout''))) ''5''
      \<lparr> negeriCache = None, negeriByIdCache = [] \<rparr>
     = (Inl (Rethrown (ErrOther ''timeout'')), \<lparr> negeriCache = None, negeriByIdCache = [] \<rparr>)"
proof -
  have a: "getNegeriById 1000 1100 1200 (Inl (Rethrown (ErrOther ''500''))) (Inl (Rethrown (ErrOther ''500''))) ''5''
      \<lparr> negeriCache = None,
        negeriByIdCache = [(''5'', \<lparr> data = negeri_of ''5'' ''Johor'', timestamp = 0 \<rparr>)] \<rparr>
     = (Inr (Some (negeri_of ''5'' ''Johor'')),
        \<lparr> negeriCache = None,
          negeriByIdCache = [(''5'', \<lparr> data = negeri_of ''5'' ''Johor'', timestamp = 0 \<rparr>)] \<rparr>)"
    using getNegeriById_lookup_order [where nowA = 1000 and nowB = 1100 and nowC = 1200
        and point = "Inl (Rethrown (ErrOther ''500''))" and listing = "Inl (Rethrown (ErrOther ''500''))" and ident = "''5''"
        and st = "\<lparr> negeriCache = None,
                    negeriByIdCache = [(''5'', \<lparr> data = negeri_of ''5'' ''Johor'', timestamp = 0 \<rparr>)] \<rparr>"]
    by (simp add: isCacheValidN_def cacheExpirationTimeN_def)
  have b: "getNegeriById 1000 1100 1200 (Inl (Rethrown (ErrOther ''500''))) (Inl (Rethrown (ErrOther ''500''))) ''6''
      \<lparr> negeriCache = Some \<lparr> data = [negeri_of ''5'' ''Johor'', negeri_of ''6'' ''Kedah''], timestamp = 0 \<rparr>,
        negeriByIdCache = [] \<rparr>
     = (Inr (Some (negeri_of ''6'' ''Kedah'')),
        \<lparr> negeriCache = Some \<lparr> data = [negeri_of ''5'' ''Johor'', negeri_of ''6'' ''Kedah''], timestamp = 0 \<rparr>,
          negeriByIdCache = [(''6'', \<lparr> data = negeri_of ''6'' ''Kedah'', timestamp = 1000 \<rparr>)] \<rparr>)"
    using getNegeriById_lookup_order [where nowA = 1000 and nowB = 1100 and nowC = 1200
        and point = "Inl (Rethrown (ErrOther ''500''))" and listing = "Inl (Rethrown (ErrOther ''500''))" and ident = "''6''"
        and st = "\<lparr> negeriCache = Some \<lparr> data = [negeri_of ''5'' ''Johor'', negeri_of ''6'' ''Kedah''],
                                          timestamp = 0 \<rparr>,
                    negeriByIdCache = [] \<rparr>"]
    by (simp add: isCacheValidN_def cacheExpirationTimeN_def backfill_def negeri_of_def)
  have c: "getNegeriById 1000 1100 1200 (Inr (negeri_of ''5'' ''Johor'')) (Inl (Rethrown (ErrOther ''500''))) ''5''
      \<lparr> negeriCache = None, negeriByIdCache = [] \<rparr>
     = (Inr (Some (negeri_of ''5'' ''Johor'')),
        \<lparr> negeriCache = None,
          negeriByIdCache = [(''5'', \<lparr> data = negeri_of ''5'' ''Johor'', timestamp = 1100 \<rparr>)] \<rparr>)"
    using getNegeriById_lookup_order [where nowA = 1000 and nowB = 1100 and nowC = 1200
        and point = "Inr (negeri_of ''5'' ''Johor'')" and listing = "Inl (Rethrown (ErrOther ''500''))" and ident = "''5''"
        and st = "\<lparr> negeriCache = None, negeriByIdCache = [] \<rparr>"]
    by (simp add: isCacheValidN_def scan_list_cache_def backfill_def)
  have d: "getNegeriById 1000 1100 1200 (Inl (Rethrown (ErrOther ''404'')))
        (Inr [negeri_of ''5'' ''Johor'']) ''7''
      \<lparr> negeriCache = None, negeriByIdCache = [] \<rparr>
     = (Inr None,
        \<lparr> negeriCache = Some \<lparr> data = [negeri_of ''5'' ''Johor''], timestamp = 1200 \<rparr>,
          negeriByIdCache = [(''5'', \<lparr> data = negeri_of ''5'' ''Johor'', timestamp = 1200 \<rparr>)] \<rparr>)"
    using getNegeriById_lookup_order [where nowA = 1000 and nowB = 1100 and nowC = 1200
        and point = "Inl (Rethrown (ErrOther ''404''))" and listing = "Inr [negeri_of ''5'' ''Johor'']"
        and ident = "''7''" and st = "\<lparr> negeriCache = None, negeriByIdCache = [] \<rparr>"]
    by (simp add: isCacheValidN_def scan_list_cache_def getAllNegeri_def negeri_of_def)
  have e: "getNegeriById 1000000 1000100 1000200 (Inl (Rethrown (ErrOther ''404'')))
        (Inl (Rethrown (ErrOther ''timeout''))) ''5''
      \<lparr> negeriCache = None,
        negeriByIdCache = [(''5'', \<lparr> data = negeri_of ''5'' ''Johor'', timestamp = 0 \<rparr>)] \<rparr>
     = (Inr (Some (negeri_of ''5'' ''Johor'')),
        \<lparr> negeriCache = None,
          negeriByIdCache = [(''5'', \<lparr> data = negeri_of ''5'' ''Johor'', timestamp = 0 \<rparr>)] \<rparr>)"
    using getNegeriById_lookup_order [where nowA = 1000000 and nowB = 1000100 and nowC = 1000200
        and point = "Inl (Rethrown (ErrOther ''404''))" and listing = "Inl (Rethrown (ErrOther ''timeout''))"
        and ident = "''5''"
        and st = "\<lparr> negeriCache = None,
                    negeriByIdCache = [(''5'', \<lparr> data = negeri_of ''5'' ''Johor'', timestamp = 0 \<rparr>)] \<rparr>"]
    by (simp add: isCacheValidN_def cacheExpirationTimeN_def scan_list_cache_def getAllNegeri_def)
  have f: "getNegeriById 1000 1100 1200 (Inl (Rethrown (ErrOther ''404'')))
        (Inl (Rethrown (ErrOther ''timeout''))) ''5''
      \<lparr> negeriCache = None, negeriByIdCache = [] \<rparr>
     = (Inl (Rethrown (ErrOther ''timeout'')), \<lparr> negeriCache = None, negeriByIdCache = [] \<rparr>)"
    using getNegeriById_lookup_order [where nowA = 1000 and nowB = 1100 and nowC = 1200
        and point = "Inl (Rethrown (ErrOther ''404''))" and listing = "Inl (Rethrown (ErrOther ''timeout''))"
        and ident = "''5''" and st = "\<lparr> negeriCache = None, negeriByIdCache = [] \<rparr>"]
    by (simp add: isCacheValidN_def scan_list_cache_def getAllNegeri_def)
  from a b c d e f show ?thesis by (intro conjI)
qed

section \<open>Cache validity and expired entries\<close>

lemma isCacheValidK_iff:
  "isCacheValidK now cache \<longleftrightarrow> (\<exists>ce. cache = Some ce \<and> now - timestamp ce < cacheExpirationTimeK)"
  by (cases cache) (simp_all add: isCacheValidK_def)

lemma isCacheValidN_iff:
  "isCacheValidN now cache \<longleftrightarrow> (\<exists>ce. cache = Some ce \<and> now - timestamp ce < cacheExpirationTimeN)"
  by (cases cache) (simp_all add: isCacheValidN_def)

lemma setCacheData_entry:
  "map_of (setCacheData t c key d expMs) key
     = Some \<lparr> data = d, timestamp = t,
              expiresAt = t + (case expMs of
                                 None \<Rightarrow> defaultCacheExpiration
                               | Some ms \<Rightarrow> if ms \<noteq> 0 then ms else defaultCacheExpiration) \<rparr>"
  by (simp add: setCacheData_def update_conv')

lemma getValidCacheData_entry:
  "map_of c key = Some e \<Longrightarrow>
   getValidCacheData now c key
     = (if now - timestamp e < expiresAt e - timestamp e then (data e, c)
        else (JNull, AList.delete key c))"
  by (simp add: getValidCacheData_def)

lemma deleted_key_absent: "map_of (AList.delete key c) key = None"
  by (simp add: delete_conv')

lemma getKamusByNegeriId_fallback:
  "\<not> isCacheValidK now0 (map_of (kamusByNegeriCache st) nid) \<Longrightarrow>
   map_of (kamusByNegeriCache st) nid = Some ce \<Longrightarrow> fetch_fails outcome \<Longrightarrow>
   getKamusByNegeriId now0 now1 outcome rnd nid st = (Inr (data ce), st)"
  by (auto simp: getKamusByNegeriId_def Let_def fetch_fails_iff)

lemma getAllNegeri_fetch:
  "\<not> isCacheValidN now0 (negeriCache sn) \<Longrightarrow>
   fst (getAllNegeri now0 now1 (Inr negeriList) sn) = Inr negeriList"
  by (simp add: getAllNegeri_def)

lemma getAllNegeri_fallback:
  "\<not> isCacheValidN now0 (negeriCache sn) \<Longrightarrow> negeriCache sn = Some ce \<Longrightarrow>
   getAllNegeri now0 now1 (Inl err) sn = (Inr (data ce), sn)"
  by (simp add: getAllNegeri_def)

lemma getNegeriById_stale:
  assumes "\<not> isCacheValidN now0 (map_of (negeriByIdCache sn) ident)"
    and "map_of (negeriByIdCache sn) ident = Some ce" and "negeriCache sn = None"
  shows "getNegeriById now0 now1 now2 (Inl e) (Inl err) ident sn = (Inr (Some (data ce)), sn)"
proof -
  have s: "scan_list_cache now0 sn ident = None"
    by (simp add: scan_list_cache_def assms(3) isCacheValidN_def)
  have g: "getAllNegeri now1 now2 (Inl err) sn = (Inl err, sn)"
    by (simp add: getAllNegeri_throws assms(3))
  show ?thesis
    using getNegeriById_step5[OF assms(1) s refl g] assms(2) by simp
qed

lemma keys_update: "fst ` set (AList.update k v c) = insert k (fst ` set c)"
  by (induction c) auto

lemma keys_fold_update:
  "fst ` set c \<subseteq> fst ` set (fold (\<lambda>x. AList.update (f x) (g x)) xs c)"
proof (induction xs arbitrary: c)
  case Nil
  then show ?case by simp
next
  case (Cons x xs)
  have "fst ` set c \<subseteq> fst ` set (AList.update (f x) (g x) c)"
    by (auto simp: keys_update)
  also have "\<dots> \<subseteq> fst ` set (fold (\<lambda>x. AList.update (f x) (g x)) xs (AList.update (f x) (g x) c))"
    by (rule Cons.IH)
  finally show ?case by simp
qed

lemma kamus_entries_kept_refl: "kamus_entries_kept st st"
  by (simp add: kamus_entries_kept_def)

lemma negeri_entries_kept_refl: "negeri_entries_kept st st"
  by (simp add: negeri_entries_kept_def)

lemma negeri_entries_kept_trans:
  "negeri_entries_kept a b \<Longrightarrow> negeri_entries_kept b c \<Longrightarrow> negeri_entries_kept a c"
  by (auto simp: negeri_entries_kept_def)

lemma getAllKamus_keeps: "kamus_entries_kept st (snd (getAllKamus now0 now1 outcome rnd st))"
proof (cases "isCacheValidK now0 (kamusCache st)")
  case True
  then obtain ce where "kamusCache st = Some ce"
    by (cases "kamusCache st") (simp_all add: isCacheValidK_def)
  with True show ?thesis by (simp add: getAllKamus_hit kamus_entries_kept_refl)
next
  case False
  show ?thesis
  proof (cases "processResponse outcome")
    case (Inl err)
    with False show ?thesis
      by (cases "kamusCache st") (simp_all add: getAllKamus_fallback kamus_entries_kept_refl)
  next
    case (Inr items)
    with False show ?thesis
      by (simp add: getAllKamus_fetch kamus_entries_kept_def)
  qed
qed

lemma getKamusById_state:
  "snd (getKamusById now0 now1 outcome rnd ident st) = st
   \<or> snd (getKamusById now0 now1 outcome rnd ident st) = snd (getAllKamus now0 now1 outcome rnd st)"
  by (cases "getAllKamus now0 now1 outcome rnd st")
     (simp add: getKamusById_def split: option.splits sum.splits)

lemma getKamusById_keeps: "kamus_entries_kept st (snd (getKamusById now0 now1 outcome rnd ident st))"
  using getKamusById_state[of now0 now1 outcome rnd ident st]
    getAllKamus_keeps[of st now0 now1 outcome rnd] kamus_entries_kept_refl[of st]
  by auto

lemma getKamusByNegeriId_keeps:
  "kamus_entries_kept st (snd (getKamusByNegeriId now0 now1 outcome rnd nid st))"
proof (cases "isCacheValidK now0 (map_of (kamusByNegeriCache st) nid)")
  case True
  then obtain ce where "map_of (kamusByNegeriCache st) nid = Some ce"
    by (cases "map_of (kamusByNegeriCache st) nid") (simp_all add: isCacheValidK_def)
  with True show ?thesis
    by (simp add: getKamusByNegeriId_def Let_def kamus_entries_kept_refl)
next
  case False
  show ?thesis
  proof (cases "processResponse outcome")
    case (Inl err)
    with False show ?thesis
      by (cases "map_of (kamusByNegeriCache st) nid")
         (simp_all add: getKamusByNegeriId_def Let_def kamus_entries_kept_refl)
  next
    case (Inr items)
    with False show ?thesis
      by (auto simp: getKamusByNegeriId_def Let_def kamus_entries_kept_def keys_update)
  qed
qed

lemma searchKamus_keeps:
  "kamus_entries_kept st (snd (searchKamus now0 now1 outcome rnd keyword st))"
proof (cases "trim keyword = []")
  case True
  then show ?thesis by (simp add: searchKamus_def kamus_entries_kept_refl)
next
  case False
  obtain r st' where g: "getAllKamus now0 now1 outcome rnd st = (r, st')"
    by (cases "getAllKamus now0 now1 outcome rnd st")
  with getAllKamus_keeps[of st now0 now1 outcome rnd] have k: "kamus_entries_kept st st'" by simp
  show ?thesis
    using False g k
    by (cases r) (auto simp: searchKamus_def Let_def kamus_entries_kept_def)
qed

lemma getAllNegeri_keeps: "negeri_entries_kept sn (snd (getAllNegeri now0 now1 outcome sn))"
proof (cases "isCacheValidN now0 (negeriCache sn)")
  case True
  then obtain ce where "negeriCache sn = Some ce"
    by (cases "negeriCache sn") (simp_all add: isCacheValidN_def)
  with True show ?thesis by (simp add: getAllNegeri_def negeri_entries_kept_refl)
next
  case False
  show ?thesis
  proof (cases outcome)
    case (Inl err)
    with False show ?thesis
      by (cases "negeriCache sn") (simp_all add: getAllNegeri_def negeri_entries_kept_refl)
  next
    case (Inr negeriList)
    with False show ?thesis
      by (simp add: getAllNegeri_def negeri_entries_kept_def keys_fold_update)
  qed
qed

lemma backfill_keeps: "negeri_entries_kept sn (backfill ident negeri now sn)"
  by (auto simp: backfill_def negeri_entries_kept_def keys_update)

lemma getNegeriById_keeps:
  "negeri_entries_kept sn (snd (getNegeriById now0 now1 now2 point listing ident sn))"
proof (cases "isCacheValidN now0 (map_of (negeriByIdCache sn) ident)")
  case True
  then obtain ce where "map_of (negeriByIdCache sn) ident = Some ce"
    by (cases "map_of (negeriByIdCache sn) ident") (simp_all add: isCacheValidN_def)
  with True show ?thesis by (simp add: getNegeriById_step1 negeri_entries_kept_refl)
next
  case invalid: False
  show ?thesis
  proof (cases "scan_list_cache now0 sn ident")
    case (Some n)
    with invalid show ?thesis by (simp add: getNegeriById_step2 backfill_keeps)
  next
    case None
    show ?thesis
    proof (cases point)
      case (Inr n)
      with invalid None show ?thesis by (simp add: getNegeriById_step3 backfill_keeps)
    next
      case pt: (Inl e)
      obtain r st' where g: "getAllNegeri now1 now2 listing sn = (r, st')"
        by (cases "getAllNegeri now1 now2 listing sn")
      with getAllNegeri_keeps[of sn now1 now2 listing] have k: "negeri_entries_kept sn st'" by simp
      show ?thesis
      proof (cases r)
        case (Inl err)
        with g have g': "getAllNegeri now1 now2 listing sn = (Inl err, st')" by simp
        show ?thesis
          using k by (simp add: getNegeriById_step5[OF invalid None pt g'] split: option.splits)
      next
        case (Inr allNegeri)
        with g have g': "getAllNegeri now1 now2 listing sn = (Inr allNegeri, st')" by simp
        show ?thesis
          using k negeri_entries_kept_trans[OF k backfill_keeps]
          by (simp add: getNegeriById_step4[OF invalid None pt g'] split: option.splits)
      qed
    qed
  qed
qed

text \<open>
  C4, as stated, fails for the repositories: an expired full-list entry that is accessed
  while the fetch fails is returned as the fallback and stays in the store.
\<close>

theorem getAllKamus_keeps_expired_entry:
  "\<not> isCacheValidK 700000 (Some \<lparr> data = [sample_entry ''1'' ''nasi'' ''rice''], timestamp = 0 \<rparr>)
   \<and> kamusCache (snd (getAllKamus 700000 700100 (Inl (Rethrown (ErrOther ''timeout''))) (\<lambda>i. [])
                         \<lparr> kamusCache = Some \<lparr> data = [sample_entry ''1'' ''nasi'' ''rice''], timestamp = 0 \<rparr>,
                           kamusByNegeriCache = [], searchIndex = [] \<rparr>))
       = Some \<lparr> data = [sample_entry ''1'' ''nasi'' ''rice''], timestamp = 0 \<rparr>"
  by code_simp

text \<open>
  C4, amended. A repository entry is valid exactly when \<open>now - timestamp\<close> is below
  the repository's expiration time; a gateway entry is written with
  \<open>expiresAt = timestamp + window\<close> and is valid exactly when \<open>now - timestamp\<close> is
  below \<open>expiresAt - timestamp\<close>. An expired entry is never a validity hit: the gateway
  check returns \<open>null\<close>; with an expired full-list or per-region entry the
  repositories fetch and return what a successful fetch delivers; with an expired per-id
  region entry and no match in a valid full list, \<open>getNegeriById\<close> returns what a
  successful point fetch delivers. The gateway check deletes the expired entry. No read of
  a repository (\<open>getAllKamus\<close>, \<open>getKamusById\<close>, \<open>getKamusByNegeriId\<close>,
  \<open>searchKamus\<close>, \<open>getAllNegeri\<close>, \<open>getNegeriById\<close>) evicts: a full-list cache
  that was set is still set afterwards, and every key of the per-region and per-id caches
  is still a key, holding the old entry or one written over it. When the list fetch
  fails, the expired full-list or per-region entry is returned as fallback and the store
  is unchanged; an expired per-id entry is so returned when both fetches fail and no full
  list is cached. Entries are removed by \<open>clearCache\<close> and \<open>clearNegeriCache\<close>.
\<close>

theorem cache_validity_and_retention:
  "(isCacheValidK now cacheK \<longleftrightarrow> (\<exists>ce. cacheK = Some ce \<and> now - timestamp ce < cacheExpirationTimeK))
   \<and> (isCacheValidN now cacheN \<longleftrightarrow> (\<exists>ce. cacheN = Some ce \<and> now - timestamp ce < cacheExpirationTimeN))
   \<and> map_of (setCacheData t c key d expMs) key
        = Some \<lparr> data = d, timestamp = t,
                 expiresAt = t + (case expMs of
                                    None \<Rightarrow> defaultCacheExpiration
                                  | Some ms \<Rightarrow> if ms \<noteq> 0 then ms else defaultCacheExpiration) \<rparr>
   \<and> (\<forall>e. map_of c key = Some e \<longrightarrow>
          getValidCacheData now c key
            = (if now - timestamp e < expiresAt e - timestamp e then (data e, c)
               else (JNull, AList.delete key c))
          \<and> map_of (AList.delete key c) key = None)
   \<and> (\<not> isCacheValidK now (kamusCache st) \<longrightarrow>
          (\<forall>items. processResponse outcome = Inr items \<longrightarrow>
             fst (getAllKamus now nowB outcome rnd st) = Inr (map_items nowB rnd ''0'' items))
        \<and> (\<forall>ce. kamusCache st = Some ce \<and> fetch_fails outcome \<longrightarrow>
             getAllKamus now nowB outcome rnd st = (Inr (data ce), st)))
   \<and> (\<not> isCacheValidK now (map_of (kamusByNegeriCache st) nid) \<longrightarrow>
          (\<forall>items. processResponse outcome = Inr items \<longrightarrow>
             fst (getKamusByNegeriId now nowB outcome rnd nid st) = Inr (map_items nowB rnd nid items))
        \<and> (\<forall>ce. map_of (kamusByNegeriCache st) nid = Some ce \<and> fetch_fails outcome \<longrightarrow>
             getKamusByNegeriId now nowB outcome rnd nid st = (Inr (data ce), st)))
   \<and> (\<not> isCacheValidN now (negeriCache sn) \<longrightarrow>
          (\<forall>negeriList. fst (getAllNegeri now nowB (Inr negeriList) sn) = Inr negeriList)
        \<and> (\<forall>ce err. negeriCache sn = Some ce \<longrightarrow>
             getAllNegeri now nowB (Inl err) sn = (Inr (data ce), sn)))
   \<and> (\<not> isCacheValidN now (map_of (negeriByIdCache sn) ident) \<longrightarrow>
          (\<forall>n. (\<forall>lc. negeriCache sn = Some lc \<and> isCacheValidN now (Some lc) \<longrightarrow>
                      find (\<lambda>negeri. idN negeri = ident) (data lc) = None) \<longrightarrow>
             getNegeriById now nowB nowC (Inr n) listing ident sn
               = (Inr (Some n), backfill ident n nowB sn))
        \<and> (\<forall>ce e err. map_of (negeriByIdCache sn) ident = Some ce \<and> negeriCache sn = None \<longrightarrow>
             getNegeriById now nowB nowC (Inl e) (Inl err) ident sn = (Inr (Some (data ce)), sn)))
   \<and> kamus_entries_kept st (snd (getAllKamus now nowB outcome rnd st))
   \<and> kamus_entries_kept st (snd (getKamusById now nowB outcome rnd identK st))
   \<and> kamus_entries_kept st (snd (getKamusByNegeriId now nowB outcome rnd nid st))
   \<and> kamus_entries_kept st (snd (searchKamus now nowB outcome rnd keyword st))
   \<and> negeri_entries_kept sn (snd (getAllNegeri now nowB listing sn))
   \<and> negeri_entries_kept sn (snd (getNegeriById now nowB nowC point listing ident sn))
   \<and> kamusCache (clearCacheK st) = None \<and> kamusByNegeriCache (clearCacheK st) = []
   \<and> map_of (kamusByNegeriCache (clearNegeriCacheK nid st)) nid = None
   \<and> negeriCache (clearCacheN sn) = None \<and> negeriByIdCache (clearCacheN sn) = []
   \<and> map_of (negeriByIdCache (clearNegeriCacheN ident sn)) ident = None"
proof (intro conjI allI impI)
  show "isCacheValidK now cacheK \<longleftrightarrow> (\<exists>ce. cacheK = Some ce \<and> now - timestamp ce < cacheExpirationTimeK)"
    by (rule isCacheValidK_iff)
  show "isCacheValidN now cacheN \<longleftrightarrow> (\<exists>ce. cacheN = Some ce \<and> now - timestamp ce < cacheExpirationTimeN)"
    by (rule isCacheValidN_iff)
  show "map_of (setCacheData t c key d expMs) key
        = Some \<lparr> data = d, timestamp = t,
                 expiresAt = t + (case expMs of
                                    None \<Rightarrow> defaultCacheExpiration
                                  | Some ms \<Rightarrow> if ms \<noteq> 0 then ms else defaultCacheExpiration) \<rparr>"
    by (rule setCacheData_entry)
  show "map_of (AList.delete key c) key = None" for e
    by (rule deleted_key_absent)
next
  fix e assume "map_of c key = Some e"
  then show "getValidCacheData now c key
            = (if now - timestamp e < expiresAt e - timestamp e then (data e, c)
               else (JNull, AList.delete key c))"
    by (rule getValidCacheData_entry)
next
  fix items assume "\<not> isCacheValidK now (kamusCache st)" "processResponse outcome = Inr items"
  then show "fst (getAllKamus now nowB outcome rnd st) = Inr (map_items nowB rnd ''0'' items)"
    by (simp add: getAllKamus_fetch)
next
  fix ce assume v: "\<not> isCacheValidK now (kamusCache st)"
    and a: "kamusCache st = Some ce \<and> fetch_fails outcome"
  then obtain err where "processResponse outcome = Inl err" by (auto simp: fetch_fails_iff)
  with v a show "getAllKamus now nowB outcome rnd st = (Inr (data ce), st)"
    by (simp add: getAllKamus_fallback)
next
  fix items
  assume "\<not> isCacheValidK now (map_of (kamusByNegeriCache st) nid)" "processResponse outcome = Inr items"
  then show "fst (getKamusByNegeriId now nowB outcome rnd nid st) = Inr (map_items nowB rnd nid items)"
    by (rule getKamusByNegeriId_fetch)
next
  fix ce
  assume "\<not> isCacheValidK now (map_of (kamusByNegeriCache st) nid)"
    "map_of (kamusByNegeriCache st) nid = Some ce \<and> fetch_fails outcome"
  then show "getKamusByNegeriId now nowB outcome rnd nid st = (Inr (data ce), st)"
    by (simp add: getKamusByNegeriId_fallback)
next
  fix negeriList assume "\<not> isCacheValidN now (negeriCache sn)"
  then show "fst (getAllNegeri now nowB (Inr negeriList) sn) = Inr negeriList"
    by (rule getAllNegeri_fetch)
next
  fix ce err assume "\<not> isCacheValidN now (negeriCache sn)" "negeriCache sn = Some ce"
  then show "getAllNegeri now nowB (Inl err) sn = (Inr (data ce), sn)"
    by (rule getAllNegeri_fallback)
next
  fix ce e err
  assume "\<not> isCacheValidN now (map_of (negeriByIdCache sn) ident)"
    "map_of (negeriByIdCache sn) ident = Some ce \<and> negeriCache sn = None"
  then show "getNegeriById now nowB nowC (Inl e) (Inl err) ident sn = (Inr (Some (data ce)), sn)"
    by (simp add: getNegeriById_stale)
next
  fix n
  assume "\<not> isCacheValidN now (map_of (negeriByIdCache sn) ident)"
    "\<forall>lc. negeriCache sn = Some lc \<and> isCacheValidN now (Some lc) \<longrightarrow>
          find (\<lambda>negeri. idN negeri = ident) (data lc) = None"
  then show "getNegeriById now nowB nowC (Inr n) listing ident sn
               = (Inr (Some n), backfill ident n nowB sn)"
    by (simp add: getNegeriById_step3 scan_list_cache_None)
next
  show "kamus_entries_kept st (snd (getAllKamus now nowB outcome rnd st))"
    by (rule getAllKamus_keeps)
  show "kamus_entries_kept st (snd (getKamusById now nowB outcome rnd identK st))"
    by (rule getKamusById_keeps)
  show "kamus_entries_kept st (snd (getKamusByNegeriId now nowB outcome rnd nid st))"
    by (rule getKamusByNegeriId_keeps)
  show "kamus_entries_kept st (snd (searchKamus now nowB outcome rnd keyword st))"
    by (rule searchKamus_keeps)
  show "negeri_entries_kept sn (snd (getAllNegeri now nowB listing sn))"
    by (rule getAllNegeri_keeps)
  show "negeri_entries_kept sn (snd (getNegeriById now nowB nowC point listing ident sn))"
    by (rule getNegeriById_keeps)
  show "kamusCache (clearCacheK st) = None" "kamusByNegeriCache (clearCacheK st) = []"
    by (simp_all add: clearCacheK_def)
  show "map_of (kamusByNegeriCache (clearNegeriCacheK nid st)) nid = None"
    by (simp add: clearNegeriCacheK_def deleted_key_absent)
  show "negeriCache (clearCacheN sn) = None" "negeriByIdCache (clearCacheN sn) = []"
    by (simp_all add: clearCacheN_def)
  show "map_of (negeriByIdCache (clearNegeriCacheN ident sn)) ident = None"
    by (simp add: clearNegeriCacheN_def deleted_key_absent)
qed

theorem cache_validity_and_retention_witness:
  "\<not> isCacheValidK 1000000 (Some \<lparr> data = [sample_entry ''1'' ''nasi'' ''rice''], timestamp = 0 \<rparr>)
   \<and> fetch_fails (Inl (Rethrown (ErrOther ''timeout'')))
   \<and> getAllKamus 1000000 1000100 (Inl (Rethrown (ErrOther ''timeout''))) (\<lambda>i. [])
        \<lparr> kamusCache = Some \<lparr> data = [sample_entry ''1'' ''nasi'' ''rice''], timestamp = 0 \<rparr>,
          kamusByNegeriCache = [], searchIndex = [] \<rparr>
      = (Inr [sample_entry ''1'' ''nasi'' ''rice''],
         \<lparr> kamusCache = Some \<lparr> data = [sample_entry ''1'' ''nasi'' ''rice''], timestamp = 0 \<rparr>,
           kamusByNegeriCache = [], searchIndex = [] \<rparr>)
   \<and> getValidCacheData 1000000
        [(''/kamus'', \<lparr> data = JStr ''old'', timestamp = 0, expiresAt = 300000 \<rparr>)] ''/kamus''
      = (JNull, [])
   \<and> \<not> isCacheValidN 1000000
         (map_of [(''5'', \<lparr> data = negeri_of ''5'' ''Johor'', timestamp = 0 \<rparr>)] ''5'')
   \<and> negeri_entries_kept
        \<lparr> negeriCache = Some \<lparr> data = [negeri_of ''5'' ''Johor Darul Takzim''], timestamp = 0 \<rparr>,
          negeriByIdCache = [(''5'', \<lparr> data = negeri_of ''5'' ''Johor'', timestamp = 0 \<rparr>)] \<rparr>
        (snd (getNegeriById 1000000 1000100 1000200
                (Inl (Rethrown (ErrOther ''404''))) (Inl (Rethrown (ErrOther ''timeout''))) ''5''
                \<lparr> negeriCache = Some \<lparr> data = [negeri_of ''5'' ''Johor Darul Takzim''], timestamp = 0 \<rparr>,
                  negeriByIdCache = [(''5'', \<lparr> data = negeri_of ''5'' ''Johor'', timestamp = 0 \<rparr>)] \<rparr>))"
proof -
  have v: "\<not> isCacheValidK 1000000 (Some \<lparr> data = [sample_entry ''1'' ''nasi'' ''rice''], timestamp = 0 \<rparr>)"
    by (simp add: isCacheValidK_def cacheExpirationTimeK_def)
  have f: "fetch_fails (Inl (Rethrown (ErrOther ''timeout'')))"
    by (simp add: fetch_fails_def)
  have m: "map_of [(''/kamus'', \<lparr> data = JStr ''old'', timestamp = 0, expiresAt = 300000 \<rparr>)] ''/kamus''
             = Some \<lparr> data = JStr ''old'', timestamp = 0, expiresAt = 300000 \<rparr>"
    by simp
  have d: "AList.delete ''/kamus'' [(''/kamus'', \<lparr> data = JStr ''old'', timestamp = 0, expiresAt = 300000 \<rparr>)] = []"
    by simp
  have n: "\<not> isCacheValidN 1000000
         (map_of [(''5'', \<lparr> data = negeri_of ''5'' ''Johor'', timestamp = 0 \<rparr>)] ''5'')"
    by (simp add: isCacheValidN_def cacheExpirationTimeN_def)
  show ?thesis
    using v f m d n
      cache_validity_and_retention [where now = 1000000 and nowB = 1000100 and nowC = 1000200
        and outcome = "Inl (Rethrown (ErrOther ''timeout''))" and rnd = "\<lambda>i. []"
        and st = "\<lparr> kamusCache = Some \<lparr> data = [sample_entry ''1'' ''nasi'' ''rice''], timestamp = 0 \<rparr>,
                    kamusByNegeriCache = [], searchIndex = [] \<rparr>"
        and c = "[(''/kamus'', \<lparr> data = JStr ''old'', timestamp = 0, expiresAt = 300000 \<rparr>)]"
        and key = "''/kamus''"
        and cacheK = "Some \<lparr> data = [sample_entry ''1'' ''nasi'' ''rice''], timestamp = 0 \<rparr>"
        and cacheN = "None :: Negeri list CacheEntry option"
        and t = 0 and d = JNull and expMs = None and nid = "''1''" and ident = "''5''"
        and identK = "''1''" and keyword = "''nasi''"
        and point = "Inl (Rethrown (ErrOther ''404''))"
        and listing = "Inl (Rethrown (ErrOther ''timeout''))"
        and sn = "\<lparr> negeriCache = Some \<lparr> data = [negeri_of ''5'' ''Johor Darul Takzim''], timestamp = 0 \<rparr>,
                    negeriByIdCache = [(''5'', \<lparr> data = negeri_of ''5'' ''Johor'', timestamp = 0 \<rparr>)] \<rparr>"]
    by simp
qed

end
